theory Spec2Isabelle
  imports Complex_Main "HOL-Library.Multiset" "HOL-Library.Log_Nat"
begin

section \<open>Data model\<close>

text \<open>
  The match tracker keeps, per user, a collection of events; every event owns a
  sub-collection of rounds, and every round holds an ordered list of games.  The
  TypeScript interfaces \<open>Game\<close>, \<open>Round\<close> and \<open>Event\<close> of the list and detail views
  are the records below.  In the views \<open>Game.result\<close> is declared as \<open>string\<close>, so the
  result of a game is a string here as well; only the round form narrows it to
  \<open>'win' | 'loss' | 'draw'\<close>.
\<close>

record game =
  result :: string
  onThePlay :: bool

datatype outcome = Win | Loss | Draw

type_synonym timestamp = nat

text \<open>
  What \<open>roundDoc.data()\<close> returns for a stored round.  The fields \<open>games\<close> and
  \<open>opponentInkColors\<close> may be absent (the views read them as \<open>data().games || []\<close>),
  hence the options.
\<close>

record round_data =
  data_opponentInkColors :: "string list option"
  data_games :: "game list option"
  data_createdAt :: timestamp

text \<open>The \<open>Round\<close> objects built by the views: the stored fields and the derived ones.\<close>

record round =
  id_round :: string
  opponentInkColors :: "string list"
  games :: "game list"
  createdAt :: timestamp
  outcome :: outcome
  roundWins :: nat
  roundLosses :: nat
  roundDraws :: nat
  onPlayWins :: nat
  onPlayLosses :: nat
  onPlayDraws :: nat
  onDrawWins :: nat
  onDrawLosses :: nat
  onDrawDraws :: nat

section \<open>Deriving the outcome of a round\<close>

text \<open>
  The nine local counters of the callback that maps a round document to a \<open>Round\<close>
  (\<open>fetchEventDetails\<close> in the detail view; the list view holds the same code).
  The suffix \<open>_v\<close> keeps the local variables apart from the fields of \<open>round\<close>.
\<close>

record tally =
  playerWins :: nat
  playerLosses :: nat
  playerDraws :: nat
  onPlayWins_v :: nat
  onPlayLosses_v :: nat
  onPlayDraws_v :: nat
  onDrawWins_v :: nat
  onDrawLosses_v :: nat
  onDrawDraws_v :: nat

definition tally0 :: tally where
  "tally0 = \<lparr>playerWins = 0, playerLosses = 0, playerDraws = 0,
     onPlayWins_v = 0, onPlayLosses_v = 0, onPlayDraws_v = 0,
     onDrawWins_v = 0, onDrawLosses_v = 0, onDrawDraws_v = 0\<rparr>"

text \<open>The body of \<open>roundGames.forEach(game => ...)\<close>: no branch for any other result.\<close>

definition tally_game :: "game \<Rightarrow> tally \<Rightarrow> tally" where
  "tally_game g t =
     (let t1 =
        (if onThePlay g then
           (if result g = ''win'' then t\<lparr>onPlayWins_v := onPlayWins_v t + 1\<rparr>
            else if result g = ''loss'' then t\<lparr>onPlayLosses_v := onPlayLosses_v t + 1\<rparr>
            else if result g = ''draw'' then t\<lparr>onPlayDraws_v := onPlayDraws_v t + 1\<rparr>
            else t)
         else
           (if result g = ''win'' then t\<lparr>onDrawWins_v := onDrawWins_v t + 1\<rparr>
            else if result g = ''loss'' then t\<lparr>onDrawLosses_v := onDrawLosses_v t + 1\<rparr>
            else if result g = ''draw'' then t\<lparr>onDrawDraws_v := onDrawDraws_v t + 1\<rparr>
            else t))
      in
        (if result g = ''win'' then t1\<lparr>playerWins := playerWins t1 + 1\<rparr>
         else if result g = ''loss'' then t1\<lparr>playerLosses := playerLosses t1 + 1\<rparr>
         else if result g = ''draw'' then t1\<lparr>playerDraws := playerDraws t1 + 1\<rparr>
         else t1))"

text \<open>The majority rule that follows the loop.\<close>

definition majority :: "nat \<Rightarrow> nat \<Rightarrow> outcome" where
  "majority w l = (if w > l then Win else if l > w then Loss else Draw)"

text \<open>\<open>x || []\<close> on a field that may be missing.\<close>

definition or_empty :: "'a list option \<Rightarrow> 'a list" where
  "or_empty x = (case x of None \<Rightarrow> [] | Some xs \<Rightarrow> xs)"

text \<open>
  The callback of \<open>roundsSnapshot.docs.map\<close>: from the document id and its data to the
  \<open>Round\<close> with its derived outcome and tallies.
\<close>

definition deriveRound :: "string \<Rightarrow> round_data \<Rightarrow> round" where
  "deriveRound rid d =
     (let roundGames = or_empty (data_games d);
          t = fold tally_game roundGames tally0
      in \<lparr>id_round = rid,
          opponentInkColors = or_empty (data_opponentInkColors d),
          games = roundGames,
          createdAt = data_createdAt d,
          outcome = majority (playerWins t) (playerLosses t),
          roundWins = playerWins t,
          roundLosses = playerLosses t,
          roundDraws = playerDraws t,
          onPlayWins = onPlayWins_v t,
          onPlayLosses = onPlayLosses_v t,
          onPlayDraws = onPlayDraws_v t,
          onDrawWins = onDrawWins_v t,
          onDrawLosses = onDrawLosses_v t,
          onDrawDraws = onDrawDraws_v t\<rparr>)"

text \<open>Counting games of a list by result, and by result and seat.\<close>

definition count_result :: "string \<Rightarrow> game list \<Rightarrow> nat" where
  "count_result s gs = length (filter (\<lambda>g. result g = s) gs)"

definition count_seat :: "bool \<Rightarrow> string \<Rightarrow> game list \<Rightarrow> nat" where
  "count_seat p s gs = length (filter (\<lambda>g. onThePlay g = p \<and> result g = s) gs)"

text \<open>A round document that holds exactly the given games.\<close>

definition round_of_games :: "game list \<Rightarrow> round_data" where
  "round_of_games gs =
     \<lparr>data_opponentInkColors = Some [], data_games = Some gs, data_createdAt = 0\<rparr>"

definition valid_result :: "game \<Rightarrow> bool" where
  "valid_result g = (result g = ''win'' \<or> result g = ''loss'' \<or> result g = ''draw'')"

section \<open>Statistics of an event\<close>

text \<open>
  JavaScript numbers.  The counters of the folds are non-negative integers below
  \<open>2^53\<close>; every such integer is a double, and the counters are natural numbers here.
  The win rates are doubles that are no integers.  A finite double is given by its
  exact value, a rational number; the non-finite values are kept, so that a division
  by zero is visible in the result (\<open>n / 0 = Infinity\<close> for \<open>n > 0\<close>,
  \<open>0 / 0 = NaN\<close>).  The sign of a zero is not kept: no operation of the program tells
  \<open>-0\<close> from \<open>0\<close>.
\<close>

datatype jsnum = Fin rat | Infinity | NegInfinity | NaN

text \<open>
  Rounding to the nearest double (IEEE 754 binary64, ties to even), which every
  arithmetic operation of JavaScript applies to its exact result.  For \<open>q > 0\<close>,
  \<open>binade q\<close> is the exponent \<open>k\<close> with \<open>2^k \<le> q < 2^(k+1)\<close>.  A double near \<open>q\<close>
  is a multiple of \<open>2^e\<close> with \<open>e = k - 52\<close> (53 significant bits), or of the least
  subnormal \<open>2^-1074\<close> where \<open>k - 52\<close> would lie below it; a result of \<open>2^1024\<close> or
  more is \<open>Infinity\<close>.
\<close>

definition binade :: "rat \<Rightarrow> int" where
  "binade q =
     (let (a, b) = quotient_of q; k = bitlen a - bitlen b
      in if 2 powi k \<le> q then k else k - 1)"

definition round_even :: "rat \<Rightarrow> int" where
  "round_even x =
     (let f = \<lfloor>x\<rfloor>; r = x - of_int f
      in if r < 1 / 2 then f else if 1 / 2 < r then f + 1
         else if even f then f else f + 1)"

definition round_pos :: "rat \<Rightarrow> jsnum" where
  "round_pos q =
     (let e = max (binade q - 52) (- 1074);
          v = of_int (round_even (q / 2 powi e)) * 2 powi e
      in if 2 ^ 1024 \<le> v then Infinity else Fin v)"

definition neg :: "jsnum \<Rightarrow> jsnum" where
  "neg x = (case x of Fin v \<Rightarrow> Fin (- v) | Infinity \<Rightarrow> NegInfinity
            | NegInfinity \<Rightarrow> Infinity | NaN \<Rightarrow> NaN)"

definition to_double :: "rat \<Rightarrow> jsnum" where
  "to_double q =
     (if q = 0 then Fin 0 else if 0 < q then round_pos q else neg (round_pos (- q)))"

text \<open>\<open>a / b\<close> for two counters, and \<open>x * 100\<close>.\<close>

definition js_div :: "nat \<Rightarrow> nat \<Rightarrow> jsnum" where
  "js_div a b =
     (if b = 0 then (if a = 0 then NaN else Infinity) else to_double (of_nat a / of_nat b))"

definition times100 :: "jsnum \<Rightarrow> jsnum" where
  "times100 x = (case x of Fin q \<Rightarrow> to_double (q * 100) | Infinity \<Rightarrow> Infinity
     | NegInfinity \<Rightarrow> NegInfinity | NaN \<Rightarrow> NaN)"

text \<open>
  \<open>parseFloat(x.toFixed(2))\<close>.  Below \<open>10^21\<close>, \<open>toFixed(2)\<close> prints the integer \<open>n\<close>
  for which \<open>n / 100\<close> is nearest to the exact value of \<open>x\<close>, the larger one on a
  tie, with its sign and two decimals, and \<open>parseFloat\<close> reads the double nearest to
  that decimal.  From \<open>10^21\<close> on, \<open>toFixed\<close> prints the number as \<open>toString\<close> does,
  which \<open>parseFloat\<close> reads back to the same double; \<open>Infinity\<close> and \<open>NaN\<close> print and
  read as themselves.
\<close>

definition toFixed2 :: "jsnum \<Rightarrow> jsnum" where
  "toFixed2 x =
     (case x of
        Fin q \<Rightarrow>
          if 10 ^ 21 \<le> \<bar>q\<bar> then Fin q
          else to_double (sgn q * of_int \<lfloor>\<bar>q\<bar> * 100 + 1 / 2\<rfloor> / 100)
      | Infinity \<Rightarrow> Infinity | NegInfinity \<Rightarrow> NegInfinity | NaN \<Rightarrow> NaN)"

text \<open>\<open>played > 0 ? (won / played) * 100 : 0\<close>, for each of the four rates\<close>

definition winRate :: "nat \<Rightarrow> nat \<Rightarrow> jsnum" where
  "winRate won played = (if played > 0 then times100 (js_div won played) else Fin 0)"



text \<open>
  The twelve local counters of the statistics fold of \<open>fetchEventDetails\<close> (the suffix
  \<open>_v\<close> again keeps a local variable apart from the field it is stored in).
\<close>

record stats_vars =
  totalMatches :: nat
  matchesWon_v :: nat
  matchesLost_v :: nat
  matchesDrawn_v :: nat
  totalGames :: nat
  gamesWon_v :: nat
  gamesLost_v :: nat
  gamesDrawn_v :: nat
  gamesPlayedOnPlay :: nat
  gamesWonOnPlay :: nat
  gamesPlayedOnDraw :: nat
  gamesWonOnDraw :: nat

definition stats0 :: stats_vars where
  "stats0 = \<lparr>totalMatches = 0, matchesWon_v = 0, matchesLost_v = 0, matchesDrawn_v = 0,
     totalGames = 0, gamesWon_v = 0, gamesLost_v = 0, gamesDrawn_v = 0,
     gamesPlayedOnPlay = 0, gamesWonOnPlay = 0, gamesPlayedOnDraw = 0,
     gamesWonOnDraw = 0\<rparr>"

text \<open>
  The body of the inner \<open>round.games.forEach\<close>; the state is the counters together
  with the round's own \<open>playerWins\<close> and \<open>playerLosses\<close>.
\<close>

definition stats_game :: "game \<Rightarrow> stats_vars \<times> nat \<times> nat \<Rightarrow> stats_vars \<times> nat \<times> nat" where
  "stats_game g = (\<lambda>(v, pw, pl).
     let v0 = v\<lparr>totalGames := totalGames v + 1\<rparr>;
         (v1, pw1, pl1) =
           (if result g = ''win'' then (v0\<lparr>gamesWon_v := gamesWon_v v0 + 1\<rparr>, pw + 1, pl)
            else if result g = ''loss'' then (v0\<lparr>gamesLost_v := gamesLost_v v0 + 1\<rparr>, pw, pl + 1)
            else if result g = ''draw'' then (v0\<lparr>gamesDrawn_v := gamesDrawn_v v0 + 1\<rparr>, pw, pl)
            else (v0, pw, pl));
         v2 =
           (if onThePlay g then
              (let v' = v1\<lparr>gamesPlayedOnPlay := gamesPlayedOnPlay v1 + 1\<rparr> in
               if result g = ''win'' then v'\<lparr>gamesWonOnPlay := gamesWonOnPlay v' + 1\<rparr> else v')
            else
              (let v' = v1\<lparr>gamesPlayedOnDraw := gamesPlayedOnDraw v1 + 1\<rparr> in
               if result g = ''win'' then v'\<lparr>gamesWonOnDraw := gamesWonOnDraw v' + 1\<rparr> else v'))
     in (v2, pw1, pl1))"

text \<open>The body of \<open>fetchedEvent.rounds.forEach\<close>.\<close>

definition stats_round :: "round \<Rightarrow> stats_vars \<Rightarrow> stats_vars" where
  "stats_round r v =
     (let (v1, pw, pl) =
            fold stats_game (games r) (v\<lparr>totalMatches := totalMatches v + 1\<rparr>, 0, 0)
      in if pw > pl then v1\<lparr>matchesWon_v := matchesWon_v v1 + 1\<rparr>
         else if pl > pw then v1\<lparr>matchesLost_v := matchesLost_v v1 + 1\<rparr>
         else v1\<lparr>matchesDrawn_v := matchesDrawn_v v1 + 1\<rparr>)"

text \<open>The statistics fields that \<open>fetchEventDetails\<close> stores in the event it shows.\<close>

record event_stats =
  matchWinRate :: jsnum
  gameWinRate :: jsnum
  onPlayGameWinRate :: jsnum
  onDrawGameWinRate :: jsnum
  gamesWon :: nat
  gamesLost :: nat
  gamesDrawn :: nat
  matchesWon :: nat
  matchesLost :: nat
  matchesDrawn :: nat

definition eventStats :: "round list \<Rightarrow> event_stats" where
  "eventStats rs =
     (let v = fold stats_round rs stats0;
          matchWinRate_v = winRate (matchesWon_v v) (totalMatches v);
          gameWinRate_v = winRate (gamesWon_v v) (totalGames v);
          onPlayGameWinRate_v = winRate (gamesWonOnPlay v) (gamesPlayedOnPlay v);
          onDrawGameWinRate_v = winRate (gamesWonOnDraw v) (gamesPlayedOnDraw v)
      in \<lparr>matchWinRate = toFixed2 matchWinRate_v,
          gameWinRate = toFixed2 gameWinRate_v,
          onPlayGameWinRate = toFixed2 onPlayGameWinRate_v,
          onDrawGameWinRate = toFixed2 onDrawGameWinRate_v,
          gamesWon = gamesWon_v v,
          gamesLost = gamesLost_v v,
          gamesDrawn = gamesDrawn_v v,
          matchesWon = matchesWon_v v,
          matchesLost = matchesLost_v v,
          matchesDrawn = matchesDrawn_v v\<rparr>)"

text \<open>The outcome of a game list by the majority rule, and sums over a list of rounds.\<close>

definition games_outcome :: "game list \<Rightarrow> outcome" where
  "games_outcome gs = majority (count_result ''win'' gs) (count_result ''loss'' gs)"

definition count_outcome :: "outcome \<Rightarrow> game list list \<Rightarrow> nat" where
  "count_outcome oc gss = length (filter (\<lambda>gs. games_outcome gs = oc) gss)"

definition count_played :: "bool \<Rightarrow> game list \<Rightarrow> nat" where
  "count_played p gs = length (filter (\<lambda>g. onThePlay g = p) gs)"

definition sum_games :: "(game list \<Rightarrow> nat) \<Rightarrow> game list list \<Rightarrow> nat" where
  "sum_games f gss = sum_list (map f gss)"

section \<open>Statistics of a deck\<close>

text \<open>
  The data of an event document.  The three stored counters are Firestore integers and
  change by \<open>increment\<close> only; they are integers here.  Events written before decks had
  ids carry no \<open>userDeckId\<close>.
\<close>

record event_data =
  name :: string
  type :: string
  userDeckId :: "string option"
  startDate :: timestamp
  format :: string
  wins :: int
  losses :: int
  draws :: int
  createdAt_event :: timestamp

text \<open>
  The deck list computes its statistics in a fold of its own over the rounds of every
  event of the deck.  It declares ten of the twelve counters of the event fold
  (\<open>gamesLost\<close> and \<open>gamesDrawn\<close> are missing); the record \<open>stats_vars\<close> is used for
  them, with the two other fields left untouched.

  First loop over the games of a round: the round's \<open>playerWins\<close> and \<open>playerLosses\<close>.
\<close>

definition deck_tally :: "game \<Rightarrow> nat \<times> nat \<Rightarrow> nat \<times> nat" where
  "deck_tally g = (\<lambda>(pw, pl).
     if result g = ''win'' then (pw + 1, pl)
     else if result g = ''loss'' then (pw, pl + 1)
     else (pw, pl))"

text \<open>Second loop over the games of a round: \<open>for (const game of roundGames)\<close>.\<close>

definition deck_game :: "game \<Rightarrow> stats_vars \<Rightarrow> stats_vars" where
  "deck_game g v =
     (let v0 = v\<lparr>totalGames := totalGames v + 1\<rparr>;
          v1 = (if result g = ''win'' then v0\<lparr>gamesWon_v := gamesWon_v v0 + 1\<rparr> else v0)
      in if onThePlay g then
           (let v' = v1\<lparr>gamesPlayedOnPlay := gamesPlayedOnPlay v1 + 1\<rparr> in
            if result g = ''win'' then v'\<lparr>gamesWonOnPlay := gamesWonOnPlay v' + 1\<rparr> else v')
         else
           (let v' = v1\<lparr>gamesPlayedOnDraw := gamesPlayedOnDraw v1 + 1\<rparr> in
            if result g = ''win'' then v'\<lparr>gamesWonOnDraw := gamesWonOnDraw v' + 1\<rparr> else v'))"

text \<open>The body of \<open>for (const roundDoc of roundsSnapshot.docs)\<close>.\<close>

definition deck_round :: "round_data \<Rightarrow> stats_vars \<Rightarrow> stats_vars" where
  "deck_round d v =
     (let v0 = v\<lparr>totalMatches := totalMatches v + 1\<rparr>;
          roundGames = or_empty (data_games d);
          (pw, pl) = fold deck_tally roundGames (0, 0);
          v1 = (if pw > pl then v0\<lparr>matchesWon_v := matchesWon_v v0 + 1\<rparr>
                else if pl > pw then v0\<lparr>matchesLost_v := matchesLost_v v0 + 1\<rparr>
                else v0\<lparr>matchesDrawn_v := matchesDrawn_v v0 + 1\<rparr>)
      in fold deck_game roundGames v1)"

text \<open>
  The events of the deck: \<open>eventsSnapshot.docs.filter(eventDoc =>
  eventDoc.data().userDeckId === deckId)\<close>.
\<close>

definition relevantEvents :: "string \<Rightarrow> (string \<times> event_data) list \<Rightarrow> (string \<times> event_data) list" where
  "relevantEvents deckId evs = filter (\<lambda>(eid, e). userDeckId e = Some deckId) evs"

text \<open>The statistics fields of a deck in the deck list (the others copy the deck document).\<close>

record deck_stats =
  deck_matchWinRate :: jsnum
  deck_gameWinRate :: jsnum
  deck_onPlayGameWinRate :: jsnum
  deck_onDrawGameWinRate :: jsnum
  deck_matchesLost :: nat
  deck_matchesDrawn :: nat

text \<open>
  The snapshot callback of the deck list for one deck: \<open>evs\<close> are the documents of the
  user's events as the query returns them, \<open>roundsOf eid\<close> the documents of the rounds
  collection of event \<open>eid\<close>.
\<close>

definition deck_vars :: "string \<Rightarrow> (string \<times> event_data) list \<Rightarrow>
    (string \<Rightarrow> (string \<times> round_data) list) \<Rightarrow> stats_vars" where
  "deck_vars deckId evs roundsOf =
     fold (\<lambda>(eid, e) v. fold deck_round (map snd (roundsOf eid)) v)
       (relevantEvents deckId evs) stats0"

definition deckStats :: "string \<Rightarrow> (string \<times> event_data) list \<Rightarrow>
    (string \<Rightarrow> (string \<times> round_data) list) \<Rightarrow> deck_stats" where
  "deckStats deckId evs roundsOf =
     (let v = deck_vars deckId evs roundsOf;
          matchWinRate_v = winRate (matchesWon_v v) (totalMatches v);
          gameWinRate_v = winRate (gamesWon_v v) (totalGames v);
          onPlayGameWinRate_v = winRate (gamesWonOnPlay v) (gamesPlayedOnPlay v);
          onDrawGameWinRate_v = winRate (gamesWonOnDraw v) (gamesPlayedOnDraw v)
      in \<lparr>deck_matchWinRate = toFixed2 matchWinRate_v,
          deck_gameWinRate = toFixed2 gameWinRate_v,
          deck_onPlayGameWinRate = toFixed2 onPlayGameWinRate_v,
          deck_onDrawGameWinRate = toFixed2 onDrawGameWinRate_v,
          deck_matchesLost = matchesLost_v v,
          deck_matchesDrawn = matchesDrawn_v v\<rparr>)"

text \<open>
  The rounds of all events of a deck in one list, each as the \<open>Round\<close> object the views
  build from it.
\<close>

definition deckRounds :: "string \<Rightarrow> (string \<times> event_data) list \<Rightarrow>
    (string \<Rightarrow> (string \<times> round_data) list) \<Rightarrow> round list" where
  "deckRounds deckId evs roundsOf =
     concat (map (\<lambda>(eid, e). map (\<lambda>(rid, d). deriveRound rid d) (roundsOf eid))
       (relevantEvents deckId evs))"

section \<open>The document store\<close>

text \<open>
  The part of Firestore the round handlers touch: the collection \<open>users/uid/events\<close>
  and, below every event, the collection \<open>rounds\<close>.  A collection is the list of its
  documents with their ids; a collection nobody wrote to is empty.  A rounds collection
  can hold documents although its event document is missing.  The store is taken to be
  reachable: a write is rejected only for the reason Firestore itself gives, a missing
  document in \<open>updateDoc\<close>.
\<close>

record db =
  events :: "string \<Rightarrow> (string \<times> event_data) list"
  rounds :: "string \<Rightarrow> string \<Rightarrow> (string \<times> round_data) list"

definition has_doc :: "string \<Rightarrow> (string \<times> 'v) list \<Rightarrow> bool" where
  "has_doc k c = (map_of c k \<noteq> None)"

definition update_doc :: "string \<Rightarrow> ('v \<Rightarrow> 'v) \<Rightarrow> (string \<times> 'v) list \<Rightarrow> (string \<times> 'v) list" where
  "update_doc k f c = map (\<lambda>(k', v). if k' = k then (k', f v) else (k', v)) c"

definition delete_doc :: "string \<Rightarrow> (string \<times> 'v) list \<Rightarrow> (string \<times> 'v) list" where
  "delete_doc k c = filter (\<lambda>(k', v). k' \<noteq> k) c"

text \<open>\<open>updateDoc\<close> on a round and on an event: \<open>None\<close> when the document does not exist.\<close>

definition updateDoc_round :: "string \<Rightarrow> string \<Rightarrow> string \<Rightarrow> (round_data \<Rightarrow> round_data) \<Rightarrow> db \<Rightarrow> db option" where
  "updateDoc_round uid eid rid f s =
     (if has_doc rid (rounds s uid eid)
      then Some (s\<lparr>rounds := (rounds s)(uid := (rounds s uid)(eid := update_doc rid f (rounds s uid eid)))\<rparr>)
      else None)"

definition updateDoc_event :: "string \<Rightarrow> string \<Rightarrow> (event_data \<Rightarrow> event_data) \<Rightarrow> db \<Rightarrow> db option" where
  "updateDoc_event uid eid f s =
     (if has_doc eid (events s uid)
      then Some (s\<lparr>events := (events s)(uid := update_doc eid f (events s uid))\<rparr>)
      else None)"

text \<open>
  \<open>addDoc\<close> on a rounds collection; the id Firestore generates for the new document is
  the argument \<open>nid\<close>.  \<open>deleteDoc\<close> succeeds whether or not the document exists.
\<close>

definition addDoc_round :: "string \<Rightarrow> string \<Rightarrow> string \<Rightarrow> round_data \<Rightarrow> db \<Rightarrow> db" where
  "addDoc_round uid eid nid d s =
     s\<lparr>rounds := (rounds s)(uid := (rounds s uid)(eid := rounds s uid eid @ [(nid, d)]))\<rparr>"

definition deleteDoc_round :: "string \<Rightarrow> string \<Rightarrow> string \<Rightarrow> db \<Rightarrow> db" where
  "deleteDoc_round uid eid rid s =
     s\<lparr>rounds := (rounds s)(uid := (rounds s uid)(eid := delete_doc rid (rounds s uid eid)))\<rparr>"

text \<open>The update \<open>{wins: increment(dw), losses: increment(dl), draws: increment(dd)}\<close>.\<close>

definition increment :: "int \<Rightarrow> int \<Rightarrow> int \<Rightarrow> event_data \<Rightarrow> event_data" where
  "increment dw dl dd e = e\<lparr>wins := wins e + dw, losses := losses e + dl, draws := draws e + dd\<rparr>"

section \<open>Adding, editing and deleting a round\<close>

text \<open>
  The loop both handlers run over a game list, with its three counters
  (\<open>currentRoundWins\<close>, \<open>currentRoundLosses\<close>, \<open>currentRoundDraws\<close> and their
  namesakes).
\<close>

definition tally3 :: "game \<Rightarrow> nat \<times> nat \<times> nat \<Rightarrow> nat \<times> nat \<times> nat" where
  "tally3 g = (\<lambda>(w, l, d).
     if result g = ''win'' then (w + 1, l, d)
     else if result g = ''loss'' then (w, l + 1, d)
     else if result g = ''draw'' then (w, l, d + 1)
     else (w, l, d))"

text \<open>How a handler ends: the three early returns, a rejected write, or success.\<close>

datatype status =
  NoUser | NoInkColors | NoGames | Cancelled | StoreError
  | RoundAdded | RoundUpdated | RoundDeleted

text \<open>The test \<open>if (roundId)\<close>: it fails for a missing id and for the empty string.\<close>

definition truthy :: "string option \<Rightarrow> string option" where
  "truthy x = (case x of None \<Rightarrow> None | Some k \<Rightarrow> if k = [] then None else Some k)"

text \<open>
  \<open>handleSubmit\<close> of the round form.  \<open>currentUser\<close> is the uid of \<open>auth.currentUser\<close>;
  \<open>eventId\<close>, \<open>roundId\<close> and \<open>roundData\<close> are the props; \<open>opponentInkColors_f\<close> and
  \<open>games_f\<close> are the state of the form; \<open>newId\<close> and \<open>now\<close> are the id \<open>addDoc\<close> assigns
  and \<open>Timestamp.now()\<close>.  The result is the state of the store when the handler ends: a write that
  went through before a later one was rejected stays.
\<close>

definition handleSubmit :: "string option \<Rightarrow> string \<Rightarrow> string option \<Rightarrow> round option \<Rightarrow>
    string list \<Rightarrow> game list \<Rightarrow> string \<Rightarrow> timestamp \<Rightarrow> db \<Rightarrow> status \<times> db" where
  "handleSubmit currentUser eventId roundId roundData opponentInkColors_f games_f newId now s =
     (case currentUser of
        None \<Rightarrow> (NoUser, s)
      | Some userUid \<Rightarrow>
          if length opponentInkColors_f = 0 then (NoInkColors, s)
          else if length games_f = 0 then (NoGames, s)
          else
            let (currentRoundWins, currentRoundLosses, currentRoundDraws) =
                  fold tally3 games_f (0, 0, 0)
            in
              (case truthy roundId of
                 Some rid \<Rightarrow>
                   let (previousRoundWins, previousRoundLosses, previousRoundDraws) =
                         (case roundData of
                            None \<Rightarrow> (0, 0, 0)
                          | Some r \<Rightarrow> fold tally3 (games r) (0, 0, 0))
                   in
                     (case updateDoc_round userUid eventId rid
                             (\<lambda>d. d\<lparr>data_opponentInkColors := Some opponentInkColors_f,
                                    data_games := Some games_f\<rparr>) s of
                        None \<Rightarrow> (StoreError, s)
                      | Some s1 \<Rightarrow>
                          (case updateDoc_event userUid eventId
                                  (increment (int currentRoundWins - int previousRoundWins)
                                     (int currentRoundLosses - int previousRoundLosses)
                                     (int currentRoundDraws - int previousRoundDraws)) s1 of
                             None \<Rightarrow> (StoreError, s1)
                           | Some s2 \<Rightarrow> (RoundUpdated, s2)))
               | None \<Rightarrow>
                   let s1 = addDoc_round userUid eventId newId
                              \<lparr>data_opponentInkColors = Some opponentInkColors_f,
                               data_games = Some games_f, data_createdAt = now\<rparr> s
                   in
                     (case updateDoc_event userUid eventId
                             (increment (int currentRoundWins) (int currentRoundLosses)
                                (int currentRoundDraws)) s1 of
                        None \<Rightarrow> (StoreError, s1)
                      | Some s2 \<Rightarrow> (RoundAdded, s2))))"

text \<open>
  \<open>handleDeleteRound\<close> of the event list; \<open>confirmed\<close> is the answer to
  \<open>window.confirm\<close>.
\<close>

definition handleDeleteRound :: "string option \<Rightarrow> string \<Rightarrow> string \<Rightarrow> game list \<Rightarrow> bool \<Rightarrow>
    db \<Rightarrow> status \<times> db" where
  "handleDeleteRound currentUser eventId roundId games_f confirmed s =
     (case currentUser of
        None \<Rightarrow> (NoUser, s)
      | Some userUid \<Rightarrow>
          if \<not> confirmed then (Cancelled, s)
          else
            let s1 = deleteDoc_round userUid eventId roundId s;
                (eventWins, eventLosses, eventDraws) = fold tally3 games_f (0, 0, 0)
            in
              (case updateDoc_event userUid eventId
                      (increment (- int eventWins) (- int eventLosses) (- int eventDraws)) s1 of
                 None \<Rightarrow> (StoreError, s1)
               | Some s2 \<Rightarrow> (RoundDeleted, s2)))"

text \<open>The stored counters of an event, if the event exists.\<close>

definition counters :: "db \<Rightarrow> string \<Rightarrow> string \<Rightarrow> (int \<times> int \<times> int) option" where
  "counters s uid eid =
     map_option (\<lambda>e. (wins e, losses e, draws e)) (map_of (events s uid) eid)"

text \<open>The game lists of the rounds stored under an event.\<close>

definition stored_games :: "db \<Rightarrow> string \<Rightarrow> string \<Rightarrow> game list list" where
  "stored_games s uid eid = map (\<lambda>(rid, d). or_empty (data_games d)) (rounds s uid eid)"

text \<open>
  The counters count rounds by derived outcome (the invariant as the specification has
  it), and the counters count games by result (the invariant the handlers keep).
\<close>

definition outcome_consistent :: "db \<Rightarrow> string \<Rightarrow> string \<Rightarrow> bool" where
  "outcome_consistent s uid eid =
     (let gss = stored_games s uid eid in
      counters s uid eid =
        Some (int (count_outcome Win gss), int (count_outcome Loss gss),
              int (count_outcome Draw gss)))"

definition tally_consistent :: "db \<Rightarrow> string \<Rightarrow> string \<Rightarrow> bool" where
  "tally_consistent s uid eid =
     (let gss = stored_games s uid eid in
      counters s uid eid =
        Some (int (sum_games (count_result ''win'') gss),
              int (sum_games (count_result ''loss'') gss),
              int (sum_games (count_result ''draw'') gss)))"

text \<open>
  The three round mutations of a signed-in user on one event.  An edit and a delete
  start from a \<open>Round\<close> object \<open>r\<close> held in memory: the form gets \<open>r\<close> as \<open>roundData\<close>
  and its id as \<open>roundId\<close>, the delete handler gets the id and the games of \<open>r\<close>.
  An edit adds no document, so the id and the time stamp for a new document are given
  as the empty id and 0; the delete is the confirmed one.
\<close>

datatype mutation =
  AddRound "string list" "game list" string timestamp
  | EditRound round "string list" "game list"
  | DeleteRound round

definition mutate :: "string \<Rightarrow> string \<Rightarrow> mutation \<Rightarrow> db \<Rightarrow> status \<times> db" where
  "mutate uid eid m s =
     (case m of
        AddRound inks gs nid now \<Rightarrow> handleSubmit (Some uid) eid None None inks gs nid now s
      | EditRound r inks gs \<Rightarrow>
          handleSubmit (Some uid) eid (Some (id_round r)) (Some r) inks gs [] 0 s
      | DeleteRound r \<Rightarrow> handleDeleteRound (Some uid) eid (id_round r) (games r) True s)"

text \<open>
  \<open>r\<close> is the \<open>Round\<close> object the views build from a document now stored under the
  event.
\<close>

definition loaded :: "db \<Rightarrow> string \<Rightarrow> string \<Rightarrow> round \<Rightarrow> bool" where
  "loaded s uid eid r =
     (id_round r \<noteq> [] \<and>
      (case map_of (rounds s uid eid) (id_round r) of
         None \<Rightarrow> False
       | Some d \<Rightarrow> r = deriveRound (id_round r) d))"

text \<open>
  A mutation fits the store: the id of a new round is not in use, an edited or deleted
  round is the one now stored.
\<close>

definition fits :: "db \<Rightarrow> string \<Rightarrow> string \<Rightarrow> mutation \<Rightarrow> bool" where
  "fits s uid eid m =
     (case m of
        AddRound inks gs nid now \<Rightarrow> \<not> has_doc nid (rounds s uid eid)
      | EditRound r inks gs \<Rightarrow> loaded s uid eid r
      | DeleteRound r \<Rightarrow> loaded s uid eid r)"

section \<open>The specification's reading, and example data\<close>

text \<open>
  The specification's reading of the derivation, for comparison with the code: a game
  whose result is none of \<open>win\<close>, \<open>loss\<close>, \<open>draw\<close> is rejected with \<open>InvalidResult\<close>
  before any outcome is derived.
\<close>

datatype derive_error = InvalidResult

definition deriveOutcome_spec :: "game list \<Rightarrow> derive_error + outcome" where
  "deriveOutcome_spec gs =
     (if list_all valid_result gs
      then Inr (majority (count_result ''win'' gs) (count_result ''loss'' gs))
      else Inl InvalidResult)"


text \<open>Games, rounds, an event and small stores for the scenarios.\<close>

definition gm :: "string \<Rightarrow> bool \<Rightarrow> game" where
  "gm r p = \<lparr>result = r, onThePlay = p\<rparr>"

definition games_WW :: "game list" where
  "games_WW = [gm ''win'' True, gm ''win'' False]"

definition games_WLW :: "game list" where
  "games_WLW = [gm ''win'' True, gm ''loss'' False, gm ''win'' True]"

definition games_LLD :: "game list" where
  "games_LLD = [gm ''loss'' True, gm ''loss'' False, gm ''draw'' True]"

definition round_WW :: round where
  "round_WW = deriveRound ''r1'' (round_of_games games_WW)"

definition round_LLD :: round where
  "round_LLD = deriveRound ''r2'' (round_of_games games_LLD)"

definition event0 :: event_data where
  "event0 = \<lparr>name = ''Store Championship'', type = ''Tournament'', userDeckId = Some ''d1'',
     startDate = 0, format = ''Core'', wins = 0, losses = 0, draws = 0, createdAt_event = 0\<rparr>"

text \<open>An event without rounds, all counters zero.\<close>

definition db0 :: db where
  "db0 = \<lparr>events = (\<lambda>u. if u = ''u1'' then [(''e1'', event0)] else []),
          rounds = (\<lambda>u e. [])\<rparr>"

text \<open>An event with the one round \<open>[win, win]\<close> and the counters \<open>{wins: 1}\<close>.\<close>

definition db1 :: db where
  "db1 = \<lparr>events = (\<lambda>u. if u = ''u1'' then [(''e1'', event0\<lparr>wins := 1\<rparr>)] else []),
          rounds = (\<lambda>u e. if u = ''u1'' \<and> e = ''e1''
             then [(''r1'', round_of_games games_WW)] else [])\<rparr>"

text \<open>The same round with the counters \<open>{wins: 2}\<close>, as adding it to \<open>db0\<close> leaves them.\<close>

definition db2 :: db where
  "db2 = \<lparr>events = (\<lambda>u. if u = ''u1'' then [(''e1'', event0\<lparr>wins := 2\<rparr>)] else []),
          rounds = (\<lambda>u e. if u = ''u1'' \<and> e = ''e1''
             then [(''r1'', round_of_games games_WW)] else [])\<rparr>"

text \<open>
  Two events of deck \<open>d1\<close> with three and two rounds, and an event of another deck.
\<close>

definition scenarioD_events :: "(string \<times> event_data) list" where
  "scenarioD_events =
     [(''e1'', event0), (''e2'', event0), (''e3'', event0\<lparr>userDeckId := Some ''d2''\<rparr>)]"

definition scenarioD_rounds :: "string \<Rightarrow> (string \<times> round_data) list" where
  "scenarioD_rounds eid =
     (if eid = ''e1'' then
        [(''r1'', round_of_games games_WW),
         (''r2'', round_of_games games_WLW),
         (''r3'', round_of_games [gm ''loss'' True, gm ''loss'' False])]
      else if eid = ''e2'' then
        [(''r4'', round_of_games [gm ''win'' False, gm ''win'' True]),
         (''r5'', round_of_games [gm ''loss'' True, gm ''win'' False, gm ''loss'' True])]
      else if eid = ''e3'' then
        [(''r6'', round_of_games [gm ''loss'' True, gm ''loss'' False])]
      else [])"

section \<open>The tally loop in closed form\<close>

lemma count_result_Nil [simp]: "count_result s [] = 0"
  by (simp add: count_result_def)

lemma count_result_Cons [simp]:
  "count_result s (g # gs) = (if result g = s then 1 else 0) + count_result s gs"
  by (simp add: count_result_def)

lemma count_seat_Nil [simp]: "count_seat p s [] = 0"
  by (simp add: count_seat_def)

lemma count_seat_Cons [simp]:
  "count_seat p s (g # gs) =
     (if onThePlay g = p \<and> result g = s then 1 else 0) + count_seat p s gs"
  by (simp add: count_seat_def)

lemma fold_tally_game:
  "fold tally_game gs t =
     \<lparr>playerWins = playerWins t + count_result ''win'' gs,
      playerLosses = playerLosses t + count_result ''loss'' gs,
      playerDraws = playerDraws t + count_result ''draw'' gs,
      onPlayWins_v = onPlayWins_v t + count_seat True ''win'' gs,
      onPlayLosses_v = onPlayLosses_v t + count_seat True ''loss'' gs,
      onPlayDraws_v = onPlayDraws_v t + count_seat True ''draw'' gs,
      onDrawWins_v = onDrawWins_v t + count_seat False ''win'' gs,
      onDrawLosses_v = onDrawLosses_v t + count_seat False ''loss'' gs,
      onDrawDraws_v = onDrawDraws_v t + count_seat False ''draw'' gs\<rparr>"
proof (induction gs arbitrary: t)
  case Nil
  show ?case by simp
next
  case (Cons g gs)
  show ?case
    unfolding fold_simps Cons.IH
    by (simp add: tally_game_def Let_def)
qed

lemma tally_of_games:
  "fold tally_game gs tally0 =
     \<lparr>playerWins = count_result ''win'' gs,
      playerLosses = count_result ''loss'' gs,
      playerDraws = count_result ''draw'' gs,
      onPlayWins_v = count_seat True ''win'' gs,
      onPlayLosses_v = count_seat True ''loss'' gs,
      onPlayDraws_v = count_seat True ''draw'' gs,
      onDrawWins_v = count_seat False ''win'' gs,
      onDrawLosses_v = count_seat False ''loss'' gs,
      onDrawDraws_v = count_seat False ''draw'' gs\<rparr>"
  by (simp add: fold_tally_game tally0_def)

lemma deriveRound_closed:
  "deriveRound rid d =
     (let gs = or_empty (data_games d) in
      \<lparr>id_round = rid,
       opponentInkColors = or_empty (data_opponentInkColors d),
       games = gs,
       createdAt = data_createdAt d,
       outcome = majority (count_result ''win'' gs) (count_result ''loss'' gs),
       roundWins = count_result ''win'' gs,
       roundLosses = count_result ''loss'' gs,
       roundDraws = count_result ''draw'' gs,
       onPlayWins = count_seat True ''win'' gs,
       onPlayLosses = count_seat True ''loss'' gs,
       onPlayDraws = count_seat True ''draw'' gs,
       onDrawWins = count_seat False ''win'' gs,
       onDrawLosses = count_seat False ''loss'' gs,
       onDrawDraws = count_seat False ''draw'' gs\<rparr>)"
  by (simp add: deriveRound_def Let_def tally_of_games)

section \<open>Properties of the outcome derivation\<close>

lemma count_result_filter_valid:
  "valid_result \<lparr>result = s, onThePlay = True\<rparr> \<Longrightarrow>
     count_result s (filter valid_result gs) = count_result s gs"
  by (induction gs) (auto simp: valid_result_def)

lemma count_seat_filter_valid:
  "valid_result \<lparr>result = s, onThePlay = True\<rparr> \<Longrightarrow>
     count_seat p s (filter valid_result gs) = count_seat p s gs"
  by (induction gs) (auto simp: valid_result_def)

lemma valid_win: "valid_result \<lparr>result = ''win'', onThePlay = True\<rparr>"
  and valid_loss: "valid_result \<lparr>result = ''loss'', onThePlay = True\<rparr>"
  and valid_draw: "valid_result \<lparr>result = ''draw'', onThePlay = True\<rparr>"
  by (simp_all add: valid_result_def)

lemmas filter_valid_counts =
  count_result_filter_valid [OF valid_win] count_result_filter_valid [OF valid_loss]
  count_result_filter_valid [OF valid_draw]
  count_seat_filter_valid [OF valid_win] count_seat_filter_valid [OF valid_loss]
  count_seat_filter_valid [OF valid_draw]

text \<open>
  Claim C4.  For every round document, the derivation tallies the games by result
  (\<open>roundWins\<close>, \<open>roundLosses\<close>, \<open>roundDraws\<close>) and, by the flag \<open>onThePlay\<close>, into the
  on-play or the on-draw counts; the outcome is win exactly when there are more won
  than lost games, loss exactly when there are more lost than won games, and draw
  otherwise.  A round without games has outcome draw and every count zero (the record
  has nine counts beside the outcome).  The round \<open>[win(onPlay), win(onDraw),
  loss(onPlay)]\<close> has outcome win, \<open>roundWins = 2\<close>, \<open>roundLosses = 1\<close>,
  \<open>onPlayWins = 1\<close>, \<open>onPlayLosses = 1\<close> and \<open>onDrawWins = 1\<close>.
\<close>

theorem deriveRound_majority:
  "(let gs = or_empty (data_games d); r = deriveRound rid d in
      roundWins r = count_result ''win'' gs \<and>
      roundLosses r = count_result ''loss'' gs \<and>
      roundDraws r = count_result ''draw'' gs \<and>
      onPlayWins r = count_seat True ''win'' gs \<and>
      onPlayLosses r = count_seat True ''loss'' gs \<and>
      onPlayDraws r = count_seat True ''draw'' gs \<and>
      onDrawWins r = count_seat False ''win'' gs \<and>
      onDrawLosses r = count_seat False ''loss'' gs \<and>
      onDrawDraws r = count_seat False ''draw'' gs \<and>
      (outcome r = Win) = (roundWins r > roundLosses r) \<and>
      (outcome r = Loss) = (roundLosses r > roundWins r) \<and>
      (outcome r = Draw) = (roundWins r = roundLosses r)) \<and>
   deriveRound rid (d\<lparr>data_games := Some []\<rparr>) =
     \<lparr>id_round = rid, opponentInkColors = or_empty (data_opponentInkColors d),
      games = [], createdAt = data_createdAt d, outcome = Draw,
      roundWins = 0, roundLosses = 0, roundDraws = 0,
      onPlayWins = 0, onPlayLosses = 0, onPlayDraws = 0,
      onDrawWins = 0, onDrawLosses = 0, onDrawDraws = 0\<rparr> \<and>
   deriveRound rid (d\<lparr>data_games := None\<rparr>) =
     \<lparr>id_round = rid, opponentInkColors = or_empty (data_opponentInkColors d),
      games = [], createdAt = data_createdAt d, outcome = Draw,
      roundWins = 0, roundLosses = 0, roundDraws = 0,
      onPlayWins = 0, onPlayLosses = 0, onPlayDraws = 0,
      onDrawWins = 0, onDrawLosses = 0, onDrawDraws = 0\<rparr> \<and>
   (let r = deriveRound rid (d\<lparr>data_games :=
        Some [\<lparr>result = ''win'', onThePlay = True\<rparr>,
              \<lparr>result = ''win'', onThePlay = False\<rparr>,
              \<lparr>result = ''loss'', onThePlay = True\<rparr>]\<rparr>) in
      outcome r = Win \<and> roundWins r = 2 \<and> roundLosses r = 1 \<and> roundDraws r = 0 \<and>
      onPlayWins r = 1 \<and> onPlayLosses r = 1 \<and> onPlayDraws r = 0 \<and>
      onDrawWins r = 1 \<and> onDrawLosses r = 0 \<and> onDrawDraws r = 0)"
proof -
  have general:
    "(let gs = or_empty (data_games d); r = deriveRound rid d in
      roundWins r = count_result ''win'' gs \<and>
      roundLosses r = count_result ''loss'' gs \<and>
      roundDraws r = count_result ''draw'' gs \<and>
      onPlayWins r = count_seat True ''win'' gs \<and>
      onPlayLosses r = count_seat True ''loss'' gs \<and>
      onPlayDraws r = count_seat True ''draw'' gs \<and>
      onDrawWins r = count_seat False ''win'' gs \<and>
      onDrawLosses r = count_seat False ''loss'' gs \<and>
      onDrawDraws r = count_seat False ''draw'' gs \<and>
      (outcome r = Win) = (roundWins r > roundLosses r) \<and>
      (outcome r = Loss) = (roundLosses r > roundWins r) \<and>
      (outcome r = Draw) = (roundWins r = roundLosses r))"
    by (auto simp: deriveRound_closed Let_def majority_def)
  have empty_some: "deriveRound rid (d\<lparr>data_games := Some []\<rparr>) =
     \<lparr>id_round = rid, opponentInkColors = or_empty (data_opponentInkColors d),
      games = [], createdAt = data_createdAt d, outcome = Draw,
      roundWins = 0, roundLosses = 0, roundDraws = 0,
      onPlayWins = 0, onPlayLosses = 0, onPlayDraws = 0,
      onDrawWins = 0, onDrawLosses = 0, onDrawDraws = 0\<rparr>"
    by (simp add: deriveRound_closed Let_def majority_def or_empty_def)
  have empty_none: "deriveRound rid (d\<lparr>data_games := None\<rparr>) =
     \<lparr>id_round = rid, opponentInkColors = or_empty (data_opponentInkColors d),
      games = [], createdAt = data_createdAt d, outcome = Draw,
      roundWins = 0, roundLosses = 0, roundDraws = 0,
      onPlayWins = 0, onPlayLosses = 0, onPlayDraws = 0,
      onDrawWins = 0, onDrawLosses = 0, onDrawDraws = 0\<rparr>"
    by (simp add: deriveRound_closed Let_def majority_def or_empty_def)
  have scenario: "(let r = deriveRound rid (d\<lparr>data_games :=
        Some [\<lparr>result = ''win'', onThePlay = True\<rparr>,
              \<lparr>result = ''win'', onThePlay = False\<rparr>,
              \<lparr>result = ''loss'', onThePlay = True\<rparr>]\<rparr>) in
      outcome r = Win \<and> roundWins r = 2 \<and> roundLosses r = 1 \<and> roundDraws r = 0 \<and>
      onPlayWins r = 1 \<and> onPlayLosses r = 1 \<and> onPlayDraws r = 0 \<and>
      onDrawWins r = 1 \<and> onDrawLosses r = 0 \<and> onDrawDraws r = 0)"
    by (simp add: deriveRound_closed Let_def majority_def or_empty_def)
  from general empty_some empty_none scenario show ?thesis by blast
qed

text \<open>
  Claim C9 does not hold of the code: the loop has no branch for a result outside the
  three values and nothing is raised.  For the single game \<open>forfeit\<close> the specification
  asks for \<open>InvalidResult\<close>, the code returns a round of outcome draw with every count
  zero.
\<close>

theorem deriveRound_invalid_result_counterexample:
  "\<not> valid_result \<lparr>result = ''forfeit'', onThePlay = True\<rparr> \<and>
   deriveOutcome_spec [\<lparr>result = ''forfeit'', onThePlay = True\<rparr>] = Inl InvalidResult \<and>
   deriveRound ''r1'' (round_of_games [\<lparr>result = ''forfeit'', onThePlay = True\<rparr>]) =
     \<lparr>id_round = ''r1'', opponentInkColors = [],
      games = [\<lparr>result = ''forfeit'', onThePlay = True\<rparr>], createdAt = 0,
      outcome = Draw, roundWins = 0, roundLosses = 0, roundDraws = 0,
      onPlayWins = 0, onPlayLosses = 0, onPlayDraws = 0,
      onDrawWins = 0, onDrawLosses = 0, onDrawDraws = 0\<rparr>"
  by (simp add: deriveRound_closed Let_def majority_def or_empty_def round_of_games_def
      valid_result_def deriveOutcome_spec_def)

text \<open>
  Claim C9 as the code has it.  The derivation returns a round for every game sequence;
  a game whose result is none of \<open>win\<close>, \<open>loss\<close>, \<open>draw\<close> enters none of the nine counts
  of the round, so the round's outcome and its nine counts are those of the sequence
  without such games.
\<close>

theorem deriveRound_ignores_invalid_results:
  "deriveRound rid d =
     (deriveRound rid (d\<lparr>data_games := Some (filter valid_result (or_empty (data_games d)))\<rparr>))
       \<lparr>games := or_empty (data_games d)\<rparr>"
  by (simp add: deriveRound_closed Let_def filter_valid_counts or_empty_def)

section \<open>The statistics fold in closed form\<close>

lemma count_played_Nil [simp]: "count_played p [] = 0"
  by (simp add: count_played_def)

lemma count_played_Cons [simp]:
  "count_played p (g # gs) = (if onThePlay g = p then 1 else 0) + count_played p gs"
  by (simp add: count_played_def)

lemma fold_stats_game:
  "fold stats_game gs (v, pw, pl) =
     (\<lparr>totalMatches = totalMatches v,
       matchesWon_v = matchesWon_v v,
       matchesLost_v = matchesLost_v v,
       matchesDrawn_v = matchesDrawn_v v,
       totalGames = totalGames v + length gs,
       gamesWon_v = gamesWon_v v + count_result ''win'' gs,
       gamesLost_v = gamesLost_v v + count_result ''loss'' gs,
       gamesDrawn_v = gamesDrawn_v v + count_result ''draw'' gs,
       gamesPlayedOnPlay = gamesPlayedOnPlay v + count_played True gs,
       gamesWonOnPlay = gamesWonOnPlay v + count_seat True ''win'' gs,
       gamesPlayedOnDraw = gamesPlayedOnDraw v + count_played False gs,
       gamesWonOnDraw = gamesWonOnDraw v + count_seat False ''win'' gs\<rparr>,
      pw + count_result ''win'' gs, pl + count_result ''loss'' gs)"
proof (induction gs arbitrary: v pw pl)
  case Nil
  show ?case by simp
next
  case (Cons g gs)
  obtain v' pw' pl' where step: "stats_game g (v, pw, pl) = (v', pw', pl')"
    by (cases "stats_game g (v, pw, pl)") auto
  have fields:
    "totalMatches v' = totalMatches v" "matchesWon_v v' = matchesWon_v v"
    "matchesLost_v v' = matchesLost_v v" "matchesDrawn_v v' = matchesDrawn_v v"
    "totalGames v' = totalGames v + 1"
    "gamesWon_v v' = gamesWon_v v + (if result g = ''win'' then 1 else 0)"
    "gamesLost_v v' = gamesLost_v v + (if result g = ''loss'' then 1 else 0)"
    "gamesDrawn_v v' = gamesDrawn_v v + (if result g = ''draw'' then 1 else 0)"
    "gamesPlayedOnPlay v' = gamesPlayedOnPlay v + (if onThePlay g then 1 else 0)"
    "gamesWonOnPlay v' = gamesWonOnPlay v + (if onThePlay g \<and> result g = ''win'' then 1 else 0)"
    "gamesPlayedOnDraw v' = gamesPlayedOnDraw v + (if onThePlay g then 0 else 1)"
    "gamesWonOnDraw v' = gamesWonOnDraw v + (if \<not> onThePlay g \<and> result g = ''win'' then 1 else 0)"
    "pw' = pw + (if result g = ''win'' then 1 else 0)"
    "pl' = pl + (if result g = ''loss'' then 1 else 0)"
    using step by (auto simp: stats_game_def Let_def split: if_splits)
  show ?case
    unfolding fold_simps o_apply step Cons.IH
    by (simp add: fields)
qed

lemma stats_round_closed:
  "stats_round r v =
     \<lparr>totalMatches = totalMatches v + 1,
      matchesWon_v = matchesWon_v v + (if games_outcome (games r) = Win then 1 else 0),
      matchesLost_v = matchesLost_v v + (if games_outcome (games r) = Loss then 1 else 0),
      matchesDrawn_v = matchesDrawn_v v + (if games_outcome (games r) = Draw then 1 else 0),
      totalGames = totalGames v + length (games r),
      gamesWon_v = gamesWon_v v + count_result ''win'' (games r),
      gamesLost_v = gamesLost_v v + count_result ''loss'' (games r),
      gamesDrawn_v = gamesDrawn_v v + count_result ''draw'' (games r),
      gamesPlayedOnPlay = gamesPlayedOnPlay v + count_played True (games r),
      gamesWonOnPlay = gamesWonOnPlay v + count_seat True ''win'' (games r),
      gamesPlayedOnDraw = gamesPlayedOnDraw v + count_played False (games r),
      gamesWonOnDraw = gamesWonOnDraw v + count_seat False ''win'' (games r)\<rparr>"
  by (simp add: stats_round_def fold_stats_game games_outcome_def majority_def)

lemma count_outcome_Nil [simp]: "count_outcome oc [] = 0"
  by (simp add: count_outcome_def)

lemma count_outcome_Cons [simp]:
  "count_outcome oc (gs # gss) = (if games_outcome gs = oc then 1 else 0) + count_outcome oc gss"
  by (simp add: count_outcome_def)

lemma sum_games_Nil [simp]: "sum_games f [] = 0"
  by (simp add: sum_games_def)

lemma sum_games_Cons [simp]: "sum_games f (gs # gss) = f gs + sum_games f gss"
  by (simp add: sum_games_def)

lemma fold_stats_round:
  "fold stats_round rs v =
     \<lparr>totalMatches = totalMatches v + length rs,
      matchesWon_v = matchesWon_v v + count_outcome Win (map games rs),
      matchesLost_v = matchesLost_v v + count_outcome Loss (map games rs),
      matchesDrawn_v = matchesDrawn_v v + count_outcome Draw (map games rs),
      totalGames = totalGames v + sum_games length (map games rs),
      gamesWon_v = gamesWon_v v + sum_games (count_result ''win'') (map games rs),
      gamesLost_v = gamesLost_v v + sum_games (count_result ''loss'') (map games rs),
      gamesDrawn_v = gamesDrawn_v v + sum_games (count_result ''draw'') (map games rs),
      gamesPlayedOnPlay = gamesPlayedOnPlay v + sum_games (count_played True) (map games rs),
      gamesWonOnPlay = gamesWonOnPlay v + sum_games (count_seat True ''win'') (map games rs),
      gamesPlayedOnDraw = gamesPlayedOnDraw v + sum_games (count_played False) (map games rs),
      gamesWonOnDraw = gamesWonOnDraw v + sum_games (count_seat False ''win'') (map games rs)\<rparr>"
proof (induction rs arbitrary: v)
  case Nil
  show ?case by simp
next
  case (Cons r rs)
  show ?case
    unfolding fold_simps o_apply Cons.IH
    by (simp add: stats_round_closed)
qed

lemma stats_of_rounds:
  "fold stats_round rs stats0 =
     \<lparr>totalMatches = length rs,
      matchesWon_v = count_outcome Win (map games rs),
      matchesLost_v = count_outcome Loss (map games rs),
      matchesDrawn_v = count_outcome Draw (map games rs),
      totalGames = sum_games length (map games rs),
      gamesWon_v = sum_games (count_result ''win'') (map games rs),
      gamesLost_v = sum_games (count_result ''loss'') (map games rs),
      gamesDrawn_v = sum_games (count_result ''draw'') (map games rs),
      gamesPlayedOnPlay = sum_games (count_played True) (map games rs),
      gamesWonOnPlay = sum_games (count_seat True ''win'') (map games rs),
      gamesPlayedOnDraw = sum_games (count_played False) (map games rs),
      gamesWonOnDraw = sum_games (count_seat False ''win'') (map games rs)\<rparr>"
  by (simp add: fold_stats_round stats0_def)

section \<open>The deck fold in closed form\<close>

lemma fold_deck_tally:
  "fold deck_tally gs (pw, pl) = (pw + count_result ''win'' gs, pl + count_result ''loss'' gs)"
  by (induction gs arbitrary: pw pl) (auto simp: deck_tally_def)

lemma deck_game_closed:
  "deck_game g v =
     \<lparr>totalMatches = totalMatches v,
      matchesWon_v = matchesWon_v v,
      matchesLost_v = matchesLost_v v,
      matchesDrawn_v = matchesDrawn_v v,
      totalGames = totalGames v + 1,
      gamesWon_v = gamesWon_v v + (if result g = ''win'' then 1 else 0),
      gamesLost_v = gamesLost_v v,
      gamesDrawn_v = gamesDrawn_v v,
      gamesPlayedOnPlay = gamesPlayedOnPlay v + (if onThePlay g then 1 else 0),
      gamesWonOnPlay = gamesWonOnPlay v + (if onThePlay g \<and> result g = ''win'' then 1 else 0),
      gamesPlayedOnDraw = gamesPlayedOnDraw v + (if onThePlay g then 0 else 1),
      gamesWonOnDraw = gamesWonOnDraw v + (if \<not> onThePlay g \<and> result g = ''win'' then 1 else 0)\<rparr>"
  by (simp add: deck_game_def Let_def)

lemma fold_deck_game:
  "fold deck_game gs v =
     \<lparr>totalMatches = totalMatches v,
      matchesWon_v = matchesWon_v v,
      matchesLost_v = matchesLost_v v,
      matchesDrawn_v = matchesDrawn_v v,
      totalGames = totalGames v + length gs,
      gamesWon_v = gamesWon_v v + count_result ''win'' gs,
      gamesLost_v = gamesLost_v v,
      gamesDrawn_v = gamesDrawn_v v,
      gamesPlayedOnPlay = gamesPlayedOnPlay v + count_played True gs,
      gamesWonOnPlay = gamesWonOnPlay v + count_seat True ''win'' gs,
      gamesPlayedOnDraw = gamesPlayedOnDraw v + count_played False gs,
      gamesWonOnDraw = gamesWonOnDraw v + count_seat False ''win'' gs\<rparr>"
proof (induction gs arbitrary: v)
  case Nil
  show ?case by simp
next
  case (Cons g gs)
  show ?case
    unfolding fold_simps o_apply Cons.IH
    by (simp add: deck_game_closed)
qed

lemma deck_round_closed:
  "deck_round d v =
     (let gs = or_empty (data_games d) in
      \<lparr>totalMatches = totalMatches v + 1,
       matchesWon_v = matchesWon_v v + (if games_outcome gs = Win then 1 else 0),
       matchesLost_v = matchesLost_v v + (if games_outcome gs = Loss then 1 else 0),
       matchesDrawn_v = matchesDrawn_v v + (if games_outcome gs = Draw then 1 else 0),
       totalGames = totalGames v + length gs,
       gamesWon_v = gamesWon_v v + count_result ''win'' gs,
       gamesLost_v = gamesLost_v v,
       gamesDrawn_v = gamesDrawn_v v,
       gamesPlayedOnPlay = gamesPlayedOnPlay v + count_played True gs,
       gamesWonOnPlay = gamesWonOnPlay v + count_seat True ''win'' gs,
       gamesPlayedOnDraw = gamesPlayedOnDraw v + count_played False gs,
       gamesWonOnDraw = gamesWonOnDraw v + count_seat False ''win'' gs\<rparr>)"
  by (simp add: deck_round_def Let_def fold_deck_tally fold_deck_game games_outcome_def
      majority_def)

lemma fold_deck_round:
  "fold deck_round ds v =
     (let gss = map (\<lambda>d. or_empty (data_games d)) ds in
      \<lparr>totalMatches = totalMatches v + length ds,
       matchesWon_v = matchesWon_v v + count_outcome Win gss,
       matchesLost_v = matchesLost_v v + count_outcome Loss gss,
       matchesDrawn_v = matchesDrawn_v v + count_outcome Draw gss,
       totalGames = totalGames v + sum_games length gss,
       gamesWon_v = gamesWon_v v + sum_games (count_result ''win'') gss,
       gamesLost_v = gamesLost_v v,
       gamesDrawn_v = gamesDrawn_v v,
       gamesPlayedOnPlay = gamesPlayedOnPlay v + sum_games (count_played True) gss,
       gamesWonOnPlay = gamesWonOnPlay v + sum_games (count_seat True ''win'') gss,
       gamesPlayedOnDraw = gamesPlayedOnDraw v + sum_games (count_played False) gss,
       gamesWonOnDraw = gamesWonOnDraw v + sum_games (count_seat False ''win'') gss\<rparr>)"
proof (induction ds arbitrary: v)
  case Nil
  show ?case by simp
next
  case (Cons d ds)
  show ?case
    unfolding fold_simps o_apply Cons.IH
    by (simp add: deck_round_closed Let_def)
qed

lemma fold_events_concat:
  "fold (\<lambda>(eid, e) v. fold deck_round (map snd (roundsOf eid)) v) evs v =
     fold deck_round (concat (map (\<lambda>(eid, e). map snd (roundsOf eid)) evs)) v"
  by (induction evs arbitrary: v) (auto simp: fold_append)

lemma games_deriveRound [simp]: "games (deriveRound rid d) = or_empty (data_games d)"
  by (simp add: deriveRound_def Let_def)

lemma games_deckRounds:
  "map games (deckRounds deckId evs roundsOf) =
     map (\<lambda>d. or_empty (data_games d))
       (concat (map (\<lambda>(eid, e). map snd (roundsOf eid)) (relevantEvents deckId evs)))"
  by (simp add: deckRounds_def map_concat o_def split_def)

section \<open>Properties of the statistics\<close>

lemma length_deckRounds:
  "length (deckRounds deckId evs roundsOf) =
     length (concat (map (\<lambda>(eid, e). map snd (roundsOf eid)) (relevantEvents deckId evs)))"
  using arg_cong [OF games_deckRounds, of length deckId evs roundsOf] by simp

lemma deck_vars_closed:
  "deck_vars deckId evs roundsOf =
     (let gss = map games (deckRounds deckId evs roundsOf) in
      \<lparr>totalMatches = length (deckRounds deckId evs roundsOf),
       matchesWon_v = count_outcome Win gss,
       matchesLost_v = count_outcome Loss gss,
       matchesDrawn_v = count_outcome Draw gss,
       totalGames = sum_games length gss,
       gamesWon_v = sum_games (count_result ''win'') gss,
       gamesLost_v = 0,
       gamesDrawn_v = 0,
       gamesPlayedOnPlay = sum_games (count_played True) gss,
       gamesWonOnPlay = sum_games (count_seat True ''win'') gss,
       gamesPlayedOnDraw = sum_games (count_played False) gss,
       gamesWonOnDraw = sum_games (count_seat False ''win'') gss\<rparr>)"
proof -
  have "deck_vars deckId evs roundsOf =
      fold deck_round
        (concat (map (\<lambda>(eid, e). map snd (roundsOf eid)) (relevantEvents deckId evs))) stats0"
    by (simp only: deck_vars_def fold_events_concat)
  then show ?thesis
    by (simp add: fold_deck_round Let_def games_deckRounds length_deckRounds stats0_def)
qed

lemma deckStats_eventStats:
  "deckStats deckId evs roundsOf =
     (let s = eventStats (deckRounds deckId evs roundsOf) in
      \<lparr>deck_matchWinRate = matchWinRate s,
       deck_gameWinRate = gameWinRate s,
       deck_onPlayGameWinRate = onPlayGameWinRate s,
       deck_onDrawGameWinRate = onDrawGameWinRate s,
       deck_matchesLost = matchesLost s,
       deck_matchesDrawn = matchesDrawn s\<rparr>)"
  by (simp add: deckStats_def eventStats_def Let_def deck_vars_closed stats_of_rounds)

lemma sum_games_mset:
  fixes xs ys :: "round list"
  assumes eq: "mset xs = mset ys"
  shows "sum_games f (map games xs) = sum_games f (map games ys)"
proof -
  have "sum_games f (map games zs) = sum_mset (image_mset (\<lambda>r. f (games r)) (mset zs))"
    for zs :: "round list"
    by (simp add: sum_games_def o_def flip: sum_mset_sum_list)
  with eq show ?thesis by simp
qed

lemma count_outcome_mset:
  fixes xs ys :: "round list"
  assumes eq: "mset xs = mset ys"
  shows "count_outcome oc (map games xs) = count_outcome oc (map games ys)"
proof -
  have "count_outcome oc (map games zs) =
      size (filter_mset (\<lambda>r. games_outcome (games r) = oc) (mset zs))"
    for zs :: "round list"
    by (induction zs) auto
  with eq show ?thesis by simp
qed

text \<open>
  Claim C7.  The statistics of a round list and of any permutation of it agree in every
  field: matches won, lost and drawn, games won, lost and drawn, and the four win rates.
\<close>

theorem eventStats_permutation:
  assumes "mset rs = mset rs'"
  shows "eventStats rs = eventStats rs'"
  using assms mset_eq_length [OF assms]
  by (simp add: eventStats_def Let_def stats_of_rounds sum_games_mset [OF assms]
      count_outcome_mset [OF assms])


section \<open>Properties of the round handlers\<close>

lemma fold_tally3:
  "fold tally3 gs (w, l, d) =
     (w + count_result ''win'' gs, l + count_result ''loss'' gs, d + count_result ''draw'' gs)"
  by (induction gs arbitrary: w l d) (auto simp: tally3_def)

lemma map_of_update_doc:
  "map_of (update_doc k f c) k' = (if k' = k then map_option f (map_of c k) else map_of c k')"
  by (induction c) (auto simp: update_doc_def)

lemma has_doc_update_doc [simp]: "has_doc k' (update_doc k f c) = has_doc k' c"
  by (auto simp: has_doc_def map_of_update_doc)

lemma map_fst_update_doc [simp]: "map fst (update_doc k f c) = map fst c"
  by (induction c) (auto simp: update_doc_def)

lemma counters_updateDoc_event:
  "updateDoc_event uid eid (increment dw dl dd) s = Some s' \<Longrightarrow>
     counters s' uid eid =
       map_option (\<lambda>(w, l, d). (w + dw, l + dl, d + dd)) (counters s uid eid)"
  by (auto simp: updateDoc_event_def counters_def map_of_update_doc increment_def
      option.map_comp o_def split: if_splits)

lemma updateDoc_event_Some:
  "has_doc eid (events s uid) \<Longrightarrow>
     updateDoc_event uid eid f s =
       Some (s\<lparr>events := (events s)(uid := update_doc eid f (events s uid))\<rparr>)"
  by (simp add: updateDoc_event_def)

lemma has_doc_counters: "has_doc eid (events s uid) = (counters s uid eid \<noteq> None)"
  by (simp add: has_doc_def counters_def)

lemma handleSubmit_add:
  assumes "inks \<noteq> []" "gs \<noteq> []"
  shows "handleSubmit (Some uid) eid None rd inks gs nid now s =
     (let s1 = addDoc_round uid eid nid
                 \<lparr>data_opponentInkColors = Some inks, data_games = Some gs,
                  data_createdAt = now\<rparr> s
      in case updateDoc_event uid eid
                (increment (int (count_result ''win'' gs)) (int (count_result ''loss'' gs))
                   (int (count_result ''draw'' gs))) s1 of
           None \<Rightarrow> (StoreError, s1)
         | Some s2 \<Rightarrow> (RoundAdded, s2))"
  using assms by (simp add: handleSubmit_def fold_tally3 truthy_def Let_def)

lemma handleSubmit_edit:
  assumes "inks \<noteq> []" "gs \<noteq> []" "rid \<noteq> []"
  shows "handleSubmit (Some uid) eid (Some rid) (Some r) inks gs nid now s =
     (case updateDoc_round uid eid rid
             (\<lambda>d. d\<lparr>data_opponentInkColors := Some inks, data_games := Some gs\<rparr>) s of
        None \<Rightarrow> (StoreError, s)
      | Some s1 \<Rightarrow>
          (case updateDoc_event uid eid
                  (increment (int (count_result ''win'' gs) - int (count_result ''win'' (games r)))
                     (int (count_result ''loss'' gs) - int (count_result ''loss'' (games r)))
                     (int (count_result ''draw'' gs) - int (count_result ''draw'' (games r)))) s1 of
             None \<Rightarrow> (StoreError, s1)
           | Some s2 \<Rightarrow> (RoundUpdated, s2)))"
  using assms by (simp add: handleSubmit_def fold_tally3 truthy_def Let_def)

lemma handleDeleteRound_closed:
  "handleDeleteRound (Some uid) eid rid gs True s =
     (let s1 = deleteDoc_round uid eid rid s
      in case updateDoc_event uid eid
                (increment (- int (count_result ''win'' gs)) (- int (count_result ''loss'' gs))
                   (- int (count_result ''draw'' gs))) s1 of
           None \<Rightarrow> (StoreError, s1)
         | Some s2 \<Rightarrow> (RoundDeleted, s2))"
  by (simp add: handleDeleteRound_def fold_tally3 Let_def)

lemma events_addDoc_round [simp]: "events (addDoc_round uid eid nid d s) = events s"
  by (simp add: addDoc_round_def)

lemma events_deleteDoc_round [simp]: "events (deleteDoc_round uid eid rid s) = events s"
  by (simp add: deleteDoc_round_def)

lemma counters_addDoc_round [simp]: "counters (addDoc_round uid eid nid d s) u e = counters s u e"
  by (simp add: counters_def)

lemma counters_deleteDoc_round [simp]: "counters (deleteDoc_round uid eid rid s) u e = counters s u e"
  by (simp add: counters_def)

text \<open>
  Claim C2 as the code has it.  When a signed-in user submits a new round with at least
  one opponent ink colour and a non-empty game sequence to an existing event, the round
  is added and the event's \<open>wins\<close>, \<open>losses\<close> and \<open>draws\<close> each grow by the number of
  games of the sequence with that result.  No outcome of the round is derived.
\<close>

theorem handleSubmit_add_counters:
  assumes "inks \<noteq> []" "gs \<noteq> []" "counters s uid eid = Some (w, l, d)"
  shows "fst (handleSubmit (Some uid) eid None rd inks gs nid now s) = RoundAdded \<and>
     counters (snd (handleSubmit (Some uid) eid None rd inks gs nid now s)) uid eid =
       Some (w + int (count_result ''win'' gs), l + int (count_result ''loss'' gs),
             d + int (count_result ''draw'' gs))"
proof -
  let ?s1 = "addDoc_round uid eid nid
     \<lparr>data_opponentInkColors = Some inks, data_games = Some gs, data_createdAt = now\<rparr> s"
  let ?inc = "increment (int (count_result ''win'' gs)) (int (count_result ''loss'' gs))
     (int (count_result ''draw'' gs))"
  have "has_doc eid (events ?s1 uid)"
    using assms(3) by (simp add: has_doc_counters)
  then obtain s2 where s2: "updateDoc_event uid eid ?inc ?s1 = Some s2"
    by (simp add: updateDoc_event_def)
  have res: "handleSubmit (Some uid) eid None rd inks gs nid now s = (RoundAdded, s2)"
    using s2 by (simp add: handleSubmit_add [OF assms(1,2)] Let_def)
  show ?thesis
    using counters_updateDoc_event [OF s2] assms(3) by (simp add: res)
qed


lemma counters_updateDoc_round:
  "updateDoc_round uid eid rid f s = Some s' \<Longrightarrow> counters s' u e = counters s u e"
  by (auto simp: updateDoc_round_def counters_def split: if_splits)

text \<open>
  Claim C3 as the code has it.  When a signed-in user submits an edit of a stored round
  from the games \<open>games r\<close> of the in-memory round to the non-empty sequence \<open>gs\<close>, each
  counter of the event changes by the number of games with that result in \<open>gs\<close> minus
  their number in \<open>games r\<close>.
\<close>

theorem handleSubmit_edit_counters:
  assumes "inks \<noteq> []" "gs \<noteq> []" "rid \<noteq> []" "has_doc rid (rounds s uid eid)"
    and "counters s uid eid = Some (w, l, d)"
  shows "fst (handleSubmit (Some uid) eid (Some rid) (Some r) inks gs nid now s) = RoundUpdated \<and>
     counters (snd (handleSubmit (Some uid) eid (Some rid) (Some r) inks gs nid now s)) uid eid =
       Some (w + (int (count_result ''win'' gs) - int (count_result ''win'' (games r))),
             l + (int (count_result ''loss'' gs) - int (count_result ''loss'' (games r))),
             d + (int (count_result ''draw'' gs) - int (count_result ''draw'' (games r))))"
proof -
  let ?f = "\<lambda>d. d\<lparr>data_opponentInkColors := Some inks, data_games := Some gs\<rparr>"
  let ?inc = "increment (int (count_result ''win'' gs) - int (count_result ''win'' (games r)))
     (int (count_result ''loss'' gs) - int (count_result ''loss'' (games r)))
     (int (count_result ''draw'' gs) - int (count_result ''draw'' (games r)))"
  obtain s1 where s1: "updateDoc_round uid eid rid ?f s = Some s1"
    using assms(4) by (simp add: updateDoc_round_def)
  have c1: "counters s1 uid eid = Some (w, l, d)"
    using counters_updateDoc_round [OF s1] assms(5) by simp
  then have "has_doc eid (events s1 uid)"
    by (simp add: has_doc_counters)
  then obtain s2 where s2: "updateDoc_event uid eid ?inc s1 = Some s2"
    by (simp add: updateDoc_event_def)
  have res: "handleSubmit (Some uid) eid (Some rid) (Some r) inks gs nid now s = (RoundUpdated, s2)"
    using s1 s2 by (simp add: handleSubmit_edit [OF assms(1,2,3)])
  show ?thesis
    using counters_updateDoc_event [OF s2] c1 by (simp add: res)
qed

lemma increment_undo: "increment (- a) (- b) (- c) (increment a b c e) = e"
  by (simp add: increment_def)

lemma update_doc_undo:
  "update_doc k (increment (- a) (- b) (- c)) (update_doc k (increment a b c) es) = es"
  by (induction es) (auto simp: update_doc_def increment_undo)

text \<open>
  Claim C5.  If adding round \<open>R\<close> succeeded, deleting \<open>R\<close> (the id the add assigned,
  the games that were added) succeeds and leaves every event document, and so the
  event's \<open>wins\<close>, \<open>losses\<close> and \<open>draws\<close>, as they were before the add.
\<close>

theorem add_then_delete_restores_counters:
  assumes "handleSubmit (Some uid) eid None rd inks gs nid now s = (RoundAdded, s1)"
  shows "fst (handleDeleteRound (Some uid) eid nid gs True s1) = RoundDeleted \<and>
     counters (snd (handleDeleteRound (Some uid) eid nid gs True s1)) uid eid = counters s uid eid \<and>
     events (snd (handleDeleteRound (Some uid) eid nid gs True s1)) = events s"
proof -
  let ?a = "int (count_result ''win'' gs)"
  let ?b = "int (count_result ''loss'' gs)"
  let ?c = "int (count_result ''draw'' gs)"
  let ?s0 = "addDoc_round uid eid nid
     \<lparr>data_opponentInkColors = Some inks, data_games = Some gs, data_createdAt = now\<rparr> s"
  have ne: "inks \<noteq> []" "gs \<noteq> []"
    using assms by (auto simp: handleSubmit_def split: if_splits)
  have add: "updateDoc_event uid eid (increment ?a ?b ?c) ?s0 = Some s1"
    using assms by (simp add: handleSubmit_add [OF ne] Let_def split: option.splits)
  then have ex: "has_doc eid (events s uid)"
    by (simp add: updateDoc_event_def split: if_splits)
  have ev1: "events s1 = (events s)(uid := update_doc eid (increment ?a ?b ?c) (events s uid))"
    using add ex by (auto simp: updateDoc_event_def)
  let ?s2 = "deleteDoc_round uid eid nid s1"
  have ex2: "has_doc eid (events ?s2 uid)"
    using ex by (simp add: ev1)
  let ?s3 = "?s2\<lparr>events := (events ?s2)(uid :=
      update_doc eid (increment (- ?a) (- ?b) (- ?c)) (events ?s2 uid))\<rparr>"
  have del: "handleDeleteRound (Some uid) eid nid gs True s1 = (RoundDeleted, ?s3)"
    by (simp add: handleDeleteRound_closed Let_def updateDoc_event_Some [OF ex2])
  have ev3: "events ?s3 = events s"
    by (simp add: ev1 update_doc_undo)
  show ?thesis
    unfolding del fst_conv snd_conv using ev3 by (simp add: counters_def)
qed


lemma rounds_updateDoc_event:
  "updateDoc_event uid eid f s = Some s' \<Longrightarrow> rounds s' = rounds s"
  by (auto simp: updateDoc_event_def split: if_splits)

lemma rounds_updateDoc_round:
  "updateDoc_round uid eid rid f s = Some s' \<Longrightarrow>
     rounds s' = (rounds s)(uid := (rounds s uid)(eid := update_doc rid f (rounds s uid eid)))"
  by (auto simp: updateDoc_round_def split: if_splits)

lemma truthy_Some [simp]: "rid \<noteq> [] \<Longrightarrow> truthy (Some rid) = Some rid"
  by (simp add: truthy_def)

lemma handleSubmit_edit_rounds:
  assumes "rid \<noteq> []"
  shows "rounds (snd (handleSubmit cu eid (Some rid) rd inks gs nid now s)) = rounds s \<or>
     (\<exists>uid. cu = Some uid \<and>
        rounds (snd (handleSubmit cu eid (Some rid) rd inks gs nid now s)) =
          (rounds s)(uid := (rounds s uid)(eid :=
             update_doc rid (\<lambda>d. d\<lparr>data_opponentInkColors := Some inks, data_games := Some gs\<rparr>)
               (rounds s uid eid))))"
  using assms
  by (auto simp: handleSubmit_def Let_def split_def
      dest!: rounds_updateDoc_event rounds_updateDoc_round split: option.splits)

lemma createdAt_update_doc:
  "map (\<lambda>(k, d). data_createdAt d)
     (update_doc rid (\<lambda>d. d\<lparr>data_opponentInkColors := a, data_games := b\<rparr>) c) =
   map (\<lambda>(k, d). data_createdAt d) c"
  by (induction c) (auto simp: update_doc_def)

lemma delete_update_doc: "delete_doc k (update_doc k f c) = delete_doc k c"
  by (induction c) (auto simp: update_doc_def delete_doc_def)

text \<open>
  Claim C10.  Whatever way an edit of round \<open>rid\<close> ends, in every rounds collection the
  ids and the \<open>createdAt\<close> stamps are what they were, every round other than \<open>rid\<close> is
  unchanged, only the collection of the edited event of the signed-in user can differ
  at all, and round \<open>rid\<close> is either unchanged or has its \<open>opponentInkColors\<close> and
  \<open>games\<close> replaced and nothing else.
\<close>

theorem edit_writes_games_and_inks_only:
  assumes "rid \<noteq> []"
  shows "(let s' = snd (handleSubmit cu eid (Some rid) rd inks gs nid now s) in
     map fst (rounds s' u e) = map fst (rounds s u e) \<and>
     map (\<lambda>(k, d). data_createdAt d) (rounds s' u e) =
       map (\<lambda>(k, d). data_createdAt d) (rounds s u e) \<and>
     delete_doc rid (rounds s' u e) = delete_doc rid (rounds s u e) \<and>
     (rounds s' u e = rounds s u e \<or> (cu = Some u \<and> e = eid)) \<and>
     (map_of (rounds s' u e) rid = map_of (rounds s u e) rid \<or>
      map_of (rounds s' u e) rid =
        map_option (\<lambda>d. d\<lparr>data_opponentInkColors := Some inks, data_games := Some gs\<rparr>)
          (map_of (rounds s u e) rid)))"
  using handleSubmit_edit_rounds [OF assms, of cu eid rd inks gs nid now s]
  by (auto simp: Let_def createdAt_update_doc delete_update_doc map_of_update_doc
      split: if_splits)

section \<open>Rounding to a double\<close>

lemma pos_quotient:
  assumes "0 < q"
  obtains a b where "quotient_of q = (a, b)" "0 < a" "0 < b" "q = of_int a / of_int b"
proof -
  obtain a b where ab: "quotient_of q = (a, b)" by (cases "quotient_of q")
  have b: "0 < b" using ab by (rule quotient_of_denom_pos)
  have q: "q = of_int a / of_int b" using ab by (rule quotient_of_div)
  have "0 < a"
    using assms b unfolding q by (simp add: zero_less_divide_iff)
  with ab b q that show thesis by blast
qed

lemma pow_bitlen_lower: "0 < a \<Longrightarrow> (2::rat) powi (bitlen a - 1) \<le> of_int a"
proof -
  assume a: "0 < a"
  then have "1 \<le> bitlen a" by (simp add: bitlen_alt_def)
  then have "(2::rat) powi (bitlen a - 1) = 2 ^ nat (bitlen a - 1)"
    by (simp add: power_int_def)
  also have "\<dots> = of_int (2 ^ nat (bitlen a - 1))" by simp
  also have "\<dots> \<le> of_int a"
    using bitlen_bounds [OF a] by (simp only: of_int_le_iff)
  finally show ?thesis .
qed

lemma pow_bitlen_upper: "0 < a \<Longrightarrow> of_int a < (2::rat) powi (bitlen a)"
proof -
  assume a: "0 < a"
  have "0 \<le> bitlen a" by (rule bitlen_nonneg)
  then have "(2::rat) powi (bitlen a) = of_int (2 ^ nat (bitlen a))"
    by (simp add: power_int_def)
  moreover have "(of_int a :: rat) < of_int (2 ^ nat (bitlen a))"
    using bitlen_bounds [OF a] by (simp only: of_int_less_iff)
  ultimately show ?thesis by simp
qed

lemma binade_bounds:
  assumes "0 < q"
  shows "2 powi (binade q) \<le> q" and "q < 2 powi (binade q + 1)"
proof -
  from assms obtain a b where ab: "quotient_of q = (a, b)" and a: "0 < a" and b: "0 < b"
    and q: "q = of_int a / of_int b"
    by (rule pos_quotient)
  let ?k = "bitlen a - bitlen b"
  have bin: "binade q = (if 2 powi ?k \<le> q then ?k else ?k - 1)"
    by (simp add: binade_def ab Let_def)
  have lo: "(2::rat) powi (?k - 1) \<le> q"
  proof -
    have "(2::rat) powi (?k - 1) = 2 powi (bitlen a - 1) / 2 powi (bitlen b)"
      by (simp add: power_int_diff)
    also have "\<dots> \<le> of_int a / 2 powi (bitlen b)"
      using pow_bitlen_lower [OF a] by (simp add: divide_right_mono)
    also have "\<dots> \<le> of_int a / of_int b"
      using pow_bitlen_upper [OF b] a b by (simp add: frac_le)
    finally show ?thesis by (simp add: q)
  qed
  have hi: "q < (2::rat) powi (?k + 1)"
  proof -
    have "of_int a / of_int b < (2::rat) powi (bitlen a) / of_int b"
      using pow_bitlen_upper [OF a] b by (simp add: divide_strict_right_mono)
    also have "\<dots> \<le> 2 powi (bitlen a) / 2 powi (bitlen b - 1)"
      using pow_bitlen_lower [OF b] b by (intro divide_left_mono) (auto simp: zero_less_power_int)
    also have "\<dots> = 2 powi (bitlen a - (bitlen b - 1))"
      by (rule power_int_diff [symmetric]) simp
    also have "\<dots> = 2 powi (?k + 1)"
      by (simp add: algebra_simps)
    finally show ?thesis by (simp add: q)
  qed
  show "2 powi (binade q) \<le> q"
    using lo by (simp add: bin)
  show "q < 2 powi (binade q + 1)"
    using hi by (auto simp: bin not_le)
qed


lemma binade_unique:
  assumes "0 < q" "2 powi k \<le> q" "q < 2 powi (k + 1)"
  shows "binade q = k"
proof (rule antisym)
  show "binade q \<le> k"
  proof (rule ccontr)
    assume "\<not> binade q \<le> k"
    then have "k + 1 \<le> binade q" by simp
    then have "(2::rat) powi (k + 1) \<le> 2 powi (binade q)"
      by (rule power_int_increasing) simp
    with binade_bounds(1) [OF assms(1)] assms(3) show False by simp
  qed
  show "k \<le> binade q"
  proof (rule ccontr)
    assume "\<not> k \<le> binade q"
    then have "binade q + 1 \<le> k" by simp
    then have "(2::rat) powi (binade q + 1) \<le> 2 powi k"
      by (rule power_int_increasing) simp
    with binade_bounds(2) [OF assms(1)] assms(2) show False by simp
  qed
qed

lemma round_even_close: "\<bar>of_int (round_even x) - x\<bar> \<le> 1 / 2"
proof -
  have "of_int \<lfloor>x\<rfloor> \<le> x" "x < of_int \<lfloor>x\<rfloor> + 1"
    using floor_correct [of x] by auto
  then show ?thesis
    by (auto simp: round_even_def Let_def abs_le_iff)
qed

lemma round_even_unique:
  assumes "\<bar>x - of_int n\<bar> < 1 / 2"
  shows "round_even x = n"
proof (cases "of_int n \<le> x")
  case True
  with assms have "\<lfloor>x\<rfloor> = n"
    by (intro floor_unique) (auto simp: abs_less_iff)
  with assms True show ?thesis
    by (auto simp: round_even_def Let_def abs_less_iff)
next
  case False
  with assms have f: "\<lfloor>x\<rfloor> = n - 1"
    by (intro floor_unique) (auto simp: abs_less_iff)
  with assms False show ?thesis
    by (auto simp: round_even_def Let_def abs_less_iff)
qed

lemma round_pos_normal:
  assumes q: "0 < q" and lo: "2 powi k \<le> q" and hi: "q < 2 powi (k + 1)"
    and range: "- 1022 \<le> k" "k \<le> 1022"
  shows "round_pos q = Fin (of_int (round_even (q / 2 powi (k - 52))) * 2 powi (k - 52))"
    and "\<bar>of_int (round_even (q / 2 powi (k - 52))) * 2 powi (k - 52) - q\<bar> \<le> 2 powi (k - 53)"
proof -
  let ?e = "k - 52"
  let ?s = "(2::rat) powi ?e"
  let ?m = "round_even (q / ?s)"
  let ?v = "of_int ?m * ?s"
  have s: "0 < ?s" by (simp add: zero_less_power_int)
  have bin: "binade q = k" using q lo hi by (rule binade_unique)
  have e: "max (binade q - 52) (- 1074) = ?e" using range by (simp add: bin)
  have "?v - q = (of_int ?m - q / ?s) * ?s"
    using s by (simp add: field_simps)
  then have "\<bar>?v - q\<bar> = \<bar>of_int ?m - q / ?s\<bar> * ?s"
    using s by (simp only: abs_mult abs_of_pos)
  also have "\<dots> \<le> 1 / 2 * ?s"
    using round_even_close [of "q / ?s"] s by (intro mult_right_mono) simp_all
  also have "\<dots> = 2 powi (k - 53)"
  proof -
    have "(2::rat) powi (k - 53) = 2 powi (?e - 1)" by simp
    also have "\<dots> = ?s / 2" by (subst power_int_diff) simp_all
    finally show ?thesis by simp
  qed
  finally show err: "\<bar>?v - q\<bar> \<le> 2 powi (k - 53)" .
  have "(2::rat) powi (k - 53) \<le> 2 powi 969"
    using range by (intro power_int_increasing) simp_all
  moreover have "(2::rat) powi (k + 1) \<le> 2 powi 1023"
    using range by (intro power_int_increasing) simp_all
  ultimately have "?v < 2 powi 1023 + 2 powi 969"
    using err hi by (simp add: abs_le_iff)
  also have "\<dots> < (2::rat) ^ 1024" by simp
  finally have "\<not> 2 ^ 1024 \<le> ?v" by simp
  then show "round_pos q = Fin ?v"
    by (simp add: round_pos_def e Let_def)
qed


lemma to_double_eval:
  assumes "2 powi k \<le> q" "q < 2 powi (k + 1)" "- 1022 \<le> k" "k \<le> 1022"
    and "\<bar>q / 2 powi (k - 52) - of_int m\<bar> < 1 / 2"
  shows "to_double q = Fin (of_int m * 2 powi (k - 52))"
proof -
  have "(0::rat) < 2 powi k" by (simp add: zero_less_power_int)
  from this assms(1) have q: "0 < q" by (rule less_le_trans)
  have "round_even (q / 2 powi (k - 52)) = m"
    using assms(5) by (rule round_even_unique)
  with round_pos_normal(1) [OF q assms(1,2,3,4)] q show ?thesis
    by (simp add: to_double_def)
qed




lemma toFixed2_eval:
  assumes "0 < q" "q < 10 ^ 21" "of_int n \<le> q * 100 + 1 / 2" "q * 100 + 1 / 2 < of_int n + 1"
  shows "toFixed2 (Fin q) = to_double (of_int n / 100)"
proof -
  have "\<lfloor>q * 100 + 1 / 2\<rfloor> = n"
    using assms(3,4) by (intro floor_unique) simp_all
  with assms(1,2) show ?thesis
    by (simp add: toFixed2_def)
qed

text \<open>The rates of the scenarios, as the doubles the code computes.\<close>

lemma winRate_3_5: "winRate 3 5 = Fin 60"
proof -
  have "js_div 3 5 = Fin (5404319552844595 / 9007199254740992)"
    using to_double_eval [of "- 1" "3 / 5" 5404319552844595]
    by (simp add: js_div_def power_int_minus)
  moreover have "times100 (Fin (5404319552844595 / 9007199254740992)) = Fin 60"
    using to_double_eval [of 5 "5404319552844595 / 9007199254740992 * 100" 8444249301319680]
    by (simp add: times100_def power_int_minus)
  ultimately show ?thesis by (simp add: winRate_def)
qed

lemma winRate_1_2: "winRate 1 2 = Fin 50"
proof -
  have "js_div 1 2 = Fin (1 / 2)"
    using to_double_eval [of "- 1" "1 / 2" 4503599627370496]
    by (simp add: js_div_def power_int_minus)
  moreover have "times100 (Fin (1 / 2)) = Fin 50"
    using to_double_eval [of 5 50 7036874417766400]
    by (simp add: times100_def power_int_minus)
  ultimately show ?thesis by (simp add: winRate_def)
qed

lemma winRate_2_3: "winRate 2 3 = Fin (2345624805922133 / 35184372088832)"
proof -
  have "js_div 2 3 = Fin (6004799503160661 / 9007199254740992)"
    using to_double_eval [of "- 1" "2 / 3" 6004799503160661]
    by (simp add: js_div_def power_int_minus)
  moreover have "times100 (Fin (6004799503160661 / 9007199254740992)) =
      Fin (2345624805922133 / 35184372088832)"
    using to_double_eval [of 6 "6004799503160661 / 9007199254740992 * 100" 4691249611844266]
    by (simp add: times100_def power_int_minus)
  ultimately show ?thesis by (simp add: winRate_def)
qed


lemma to_double_60: "to_double 60 = Fin 60"
  using to_double_eval [of 5 60 8444249301319680] by (simp add: power_int_minus)

lemma to_double_50: "to_double 50 = Fin 50"
  using to_double_eval [of 5 50 7036874417766400] by (simp add: power_int_minus)

lemma toFixed2_60: "toFixed2 (Fin 60) = Fin 60"
  using toFixed2_eval [of 60 6000] by (simp add: to_double_60)

lemma toFixed2_50: "toFixed2 (Fin 50) = Fin 50"
  using toFixed2_eval [of 50 5000] by (simp add: to_double_50)

lemma toFixed2_2_3: "toFixed2 (winRate 2 3) = to_double (6667 / 100)"
  using toFixed2_eval [of "2345624805922133 / 35184372088832" 6667]
  by (simp add: winRate_2_3)


section \<open>Win rates\<close>



section \<open>Deck statistics over several events\<close>

lemma scenarioD_deck_counts:
  "matchesWon_v (deck_vars ''d1'' scenarioD_events scenarioD_rounds) = 3"
  "totalMatches (deck_vars ''d1'' scenarioD_events scenarioD_rounds) = 5"
  by code_simp+

lemma scenarioD_event1_counts:
  "matchesWon_v (fold stats_round
     (map (\<lambda>(rid, d). deriveRound rid d) (scenarioD_rounds ''e1'')) stats0) = 2"
  "totalMatches (fold stats_round
     (map (\<lambda>(rid, d). deriveRound rid d) (scenarioD_rounds ''e1'')) stats0) = 3"
  by code_simp+

lemma scenarioD_event2_counts:
  "matchesWon_v (fold stats_round
     (map (\<lambda>(rid, d). deriveRound rid d) (scenarioD_rounds ''e2'')) stats0) = 1"
  "totalMatches (fold stats_round
     (map (\<lambda>(rid, d). deriveRound rid d) (scenarioD_rounds ''e2'')) stats0) = 2"
  by code_simp+

lemma scenarioD_deck:
  "deck_matchWinRate (deckStats ''d1'' scenarioD_events scenarioD_rounds) = Fin 60"
  by (simp add: deckStats_def Let_def scenarioD_deck_counts winRate_3_5 toFixed2_60)

lemma scenarioD_event1:
  "matchWinRate (eventStats (map (\<lambda>(rid, d). deriveRound rid d) (scenarioD_rounds ''e1''))) =
     to_double (6667 / 100)"
  by (simp add: eventStats_def Let_def scenarioD_event1_counts toFixed2_2_3)

lemma scenarioD_event2:
  "matchWinRate (eventStats (map (\<lambda>(rid, d). deriveRound rid d) (scenarioD_rounds ''e2''))) =
     Fin 50"
  by (simp add: eventStats_def Let_def scenarioD_event2_counts winRate_1_2 [unfolded One_nat_def]
      toFixed2_50)

text \<open>
  Claim C6.  For every deck, every list of events and every assignment of rounds to
  the events, the statistics the deck list shows for the deck are the fields of the
  event statistics computed once over the rounds of all events whose \<open>userDeckId\<close> is
  the deck's id, taken together: one fold, and one division per rate over the totals of
  the union.  They are no combination of the events' own rounded rates: for two events
  of three and two rounds with match win rates 66.67 (the double nearest to it) and
  50, the deck's match win rate is 3 of 5, that is 60.
\<close>

theorem deckStats_union:
  "deckStats deckId evs roundsOf =
     (let st = eventStats (deckRounds deckId evs roundsOf) in
      \<lparr>deck_matchWinRate = matchWinRate st,
       deck_gameWinRate = gameWinRate st,
       deck_onPlayGameWinRate = onPlayGameWinRate st,
       deck_onDrawGameWinRate = onDrawGameWinRate st,
       deck_matchesLost = matchesLost st,
       deck_matchesDrawn = matchesDrawn st\<rparr>) \<and>
   deck_matchWinRate (deckStats ''d1'' scenarioD_events scenarioD_rounds) = Fin 60 \<and>
   matchWinRate (eventStats (map (\<lambda>(rid, d). deriveRound rid d) (scenarioD_rounds ''e1''))) =
     to_double (6667 / 100) \<and>
   matchWinRate (eventStats (map (\<lambda>(rid, d). deriveRound rid d) (scenarioD_rounds ''e2''))) =
     Fin 50"
  using deckStats_eventStats [of deckId evs roundsOf] scenarioD_deck scenarioD_event1
    scenarioD_event2
  by blast

section \<open>Instances of the statistics theorems\<close>

theorem eventStats_permutation_witness:
  "mset [round_WW, round_LLD] = mset [round_LLD, round_WW] \<and>
   eventStats [round_WW, round_LLD] = eventStats [round_LLD, round_WW]"
proof -
  have h: "mset [round_WW, round_LLD] = mset [round_LLD, round_WW]"
    by (simp add: add_mset_commute)
  from h eventStats_permutation [OF h] show ?thesis by blast
qed

section \<open>The counters count games\<close>

lemma sum_update_doc:
  fixes h :: "'v \<Rightarrow> nat"
  assumes "distinct (map fst c)" "map_of c k = Some d"
  shows "sum_list (map (\<lambda>(k, d). h d) (update_doc k f c)) + h d =
     sum_list (map (\<lambda>(k, d). h d) c) + h (f d)"
  using assms
proof (induction c)
  case Nil
  then show ?case by simp
next
  case (Cons p c)
  obtain k' d' where p: "p = (k', d')" by (cases p)
  show ?case
  proof (cases "k' = k")
    case True
    with Cons.prems p have "d' = d" and "k \<notin> fst ` set c" by auto
    then have "update_doc k f c = c"
      by (induction c) (auto simp: update_doc_def)
    with True p \<open>d' = d\<close> show ?thesis by (simp add: update_doc_def ac_simps)
  next
    case False
    with Cons p show ?thesis by (simp add: update_doc_def)
  qed
qed

lemma sum_delete_doc:
  fixes h :: "'v \<Rightarrow> nat"
  assumes "distinct (map fst c)" "map_of c k = Some d"
  shows "sum_list (map (\<lambda>(k, d). h d) (delete_doc k c)) + h d =
     sum_list (map (\<lambda>(k, d). h d) c)"
  using assms
proof (induction c)
  case Nil
  then show ?case by simp
next
  case (Cons p c)
  obtain k' d' where p: "p = (k', d')" by (cases p)
  show ?case
  proof (cases "k' = k")
    case True
    with Cons.prems p have "d' = d" and "k \<notin> fst ` set c" by auto
    then have "delete_doc k c = c"
      by (induction c) (auto simp: delete_doc_def)
    with True p \<open>d' = d\<close> show ?thesis by (simp add: delete_doc_def ac_simps)
  next
    case False
    with Cons p show ?thesis by (simp add: delete_doc_def)
  qed
qed

lemma distinct_delete_doc: "distinct (map fst c) \<Longrightarrow> distinct (map fst (delete_doc k c))"
  by (simp add: delete_doc_def distinct_map_filter)

lemma sum_stored_games:
  "sum_games F (stored_games s uid eid) =
     sum_list (map (\<lambda>(k, d). F (or_empty (data_games d))) (rounds s uid eid))"
  by (simp add: sum_games_def stored_games_def o_def split_def)

lemma tally_consistent_iff:
  "tally_consistent s uid eid =
     (counters s uid eid =
        Some (int (sum_games (count_result ''win'') (stored_games s uid eid)),
              int (sum_games (count_result ''loss'') (stored_games s uid eid)),
              int (sum_games (count_result ''draw'') (stored_games s uid eid))))"
  by (simp add: tally_consistent_def Let_def)

lemma add_keeps_tally:
  assumes inv: "tally_consistent s uid eid" and dist: "distinct (map fst (rounds s uid eid))"
    and fresh: "\<not> has_doc nid (rounds s uid eid)"
    and run: "handleSubmit (Some uid) eid None None inks gs nid now s = (RoundAdded, s')"
  shows "tally_consistent s' uid eid \<and> distinct (map fst (rounds s' uid eid))"
proof -
  let ?d = "\<lparr>data_opponentInkColors = Some inks, data_games = Some gs, data_createdAt = now\<rparr>"
  let ?s1 = "addDoc_round uid eid nid ?d s"
  let ?inc = "increment (int (count_result ''win'' gs)) (int (count_result ''loss'' gs))
     (int (count_result ''draw'' gs))"
  have ne: "inks \<noteq> []" "gs \<noteq> []"
    using run by (auto simp: handleSubmit_def split: if_splits)
  have upd: "updateDoc_event uid eid ?inc ?s1 = Some s'"
    using run by (simp add: handleSubmit_add [OF ne] Let_def split: option.splits)
  have r': "rounds s' uid eid = rounds s uid eid @ [(nid, ?d)]"
    using rounds_updateDoc_event [OF upd] by (simp add: addDoc_round_def)
  have "nid \<notin> fst ` set (rounds s uid eid)"
    using fresh by (simp add: has_doc_def map_of_eq_None_iff)
  with dist have d': "distinct (map fst (rounds s' uid eid))"
    by (simp add: r')
  have sums: "sum_games F (stored_games s' uid eid) = sum_games F (stored_games s uid eid) + F gs" for F
    by (simp add: sum_stored_games r' or_empty_def)
  have "tally_consistent s' uid eid"
    using counters_updateDoc_event [OF upd] inv
    by (simp add: tally_consistent_iff sums)
  with d' show ?thesis by simp
qed

lemma edit_keeps_tally:
  assumes inv: "tally_consistent s uid eid" and dist: "distinct (map fst (rounds s uid eid))"
    and ld: "loaded s uid eid r"
    and run: "handleSubmit (Some uid) eid (Some (id_round r)) (Some r) inks gs nid now s = (RoundUpdated, s')"
  shows "tally_consistent s' uid eid \<and> distinct (map fst (rounds s' uid eid))"
proof -
  let ?rid = "id_round r"
  let ?f = "\<lambda>d. d\<lparr>data_opponentInkColors := Some inks, data_games := Some gs\<rparr>"
  let ?inc = "increment (int (count_result ''win'' gs) - int (count_result ''win'' (games r)))
     (int (count_result ''loss'' gs) - int (count_result ''loss'' (games r)))
     (int (count_result ''draw'' gs) - int (count_result ''draw'' (games r)))"
  from ld obtain d where rid: "?rid \<noteq> []" and d: "map_of (rounds s uid eid) ?rid = Some d"
    and r: "r = deriveRound ?rid d"
    by (auto simp: loaded_def split: option.splits)
  have old: "games r = or_empty (data_games d)"
    using arg_cong [OF r, of games] by simp
  have ne: "inks \<noteq> []" "gs \<noteq> []"
    using run by (auto simp: handleSubmit_def split: if_splits)
  obtain s1 where s1: "updateDoc_round uid eid ?rid ?f s = Some s1"
    using d by (simp add: updateDoc_round_def has_doc_def)
  have upd: "updateDoc_event uid eid ?inc s1 = Some s'"
    using run s1 by (simp add: handleSubmit_edit [OF ne rid] split: option.splits)
  have r': "rounds s' uid eid = update_doc ?rid ?f (rounds s uid eid)"
    using rounds_updateDoc_event [OF upd] rounds_updateDoc_round [OF s1] by simp
  have d': "distinct (map fst (rounds s' uid eid))"
    using dist by (simp add: r')
  have sums: "sum_games F (stored_games s' uid eid) + F (games r) =
      sum_games F (stored_games s uid eid) + F gs" for F
    using sum_update_doc [OF dist d, of "\<lambda>d. F (or_empty (data_games d))" ?f]
    by (simp add: sum_stored_games r' old or_empty_def)
  have c1: "counters s1 uid eid = counters s uid eid"
    using counters_updateDoc_round [OF s1] by simp
  have "tally_consistent s' uid eid"
    using counters_updateDoc_event [OF upd] inv
      sums [of "count_result ''win''"] sums [of "count_result ''loss''"]
      sums [of "count_result ''draw''"]
    by (simp add: tally_consistent_iff c1)
  with d' show ?thesis by simp
qed

lemma delete_keeps_tally:
  assumes inv: "tally_consistent s uid eid" and dist: "distinct (map fst (rounds s uid eid))"
    and ld: "loaded s uid eid r"
    and run: "handleDeleteRound (Some uid) eid (id_round r) (games r) True s = (RoundDeleted, s')"
  shows "tally_consistent s' uid eid \<and> distinct (map fst (rounds s' uid eid))"
proof -
  let ?rid = "id_round r"
  let ?s1 = "deleteDoc_round uid eid ?rid s"
  let ?inc = "increment (- int (count_result ''win'' (games r)))
     (- int (count_result ''loss'' (games r))) (- int (count_result ''draw'' (games r)))"
  from ld obtain d where d: "map_of (rounds s uid eid) ?rid = Some d"
    and r: "r = deriveRound ?rid d"
    by (auto simp: loaded_def split: option.splits)
  have old: "games r = or_empty (data_games d)"
    using arg_cong [OF r, of games] by simp
  have upd: "updateDoc_event uid eid ?inc ?s1 = Some s'"
    using run by (simp add: handleDeleteRound_closed Let_def split: option.splits)
  have r': "rounds s' uid eid = delete_doc ?rid (rounds s uid eid)"
    using rounds_updateDoc_event [OF upd] by (simp add: deleteDoc_round_def)
  have d': "distinct (map fst (rounds s' uid eid))"
    using dist by (simp add: r' distinct_delete_doc)
  have sums: "sum_games F (stored_games s' uid eid) + F (games r) =
      sum_games F (stored_games s uid eid)" for F
    using sum_delete_doc [OF dist d, of "\<lambda>d. F (or_empty (data_games d))"]
    by (simp add: sum_stored_games r' old)
  have "tally_consistent s' uid eid"
    using counters_updateDoc_event [OF upd] inv
      sums [of "count_result ''win''"] sums [of "count_result ''loss''"]
      sums [of "count_result ''draw''"]
    by (simp add: tally_consistent_iff)
  with d' show ?thesis by simp
qed

text \<open>
  Claim C1 as the code has it.  The handlers keep the counters equal to the numbers of
  games won, lost and drawn over the rounds stored under the event, not to the numbers
  of rounds by outcome: if the counters of an event equal these game totals and the ids
  of its rounds are distinct, then after every successful add (under an id not in
  use), edit or delete (of a round as it is stored) they equal the game totals of the
  rounds stored then.
\<close>

theorem mutations_keep_game_tallies:
  assumes "tally_consistent s uid eid" and "distinct (map fst (rounds s uid eid))"
    and "fits s uid eid m"
    and "mutate uid eid m s = (st, s')"
    and "st = RoundAdded \<or> st = RoundUpdated \<or> st = RoundDeleted"
  shows "tally_consistent s' uid eid \<and> distinct (map fst (rounds s' uid eid))"
proof (cases m)
  case (AddRound inks gs nid now)
  with assms(4) have run: "handleSubmit (Some uid) eid None None inks gs nid now s = (st, s')"
    by (simp add: mutate_def)
  then have "st \<noteq> RoundUpdated" "st \<noteq> RoundDeleted"
    by (auto simp: handleSubmit_def truthy_def Let_def split_def split: if_splits option.splits)
  with assms(5) have "st = RoundAdded" by blast
  with run have run': "handleSubmit (Some uid) eid None None inks gs nid now s = (RoundAdded, s')"
    by simp
  from assms(3) AddRound have fresh: "\<not> has_doc nid (rounds s uid eid)"
    by (simp add: fits_def)
  show ?thesis
    by (rule add_keeps_tally [OF assms(1,2) fresh run'])
next
  case (EditRound r inks gs)
  with assms(4) have run:
    "handleSubmit (Some uid) eid (Some (id_round r)) (Some r) inks gs [] 0 s = (st, s')"
    by (simp add: mutate_def)
  from assms(3) EditRound have ld: "loaded s uid eid r"
    by (simp add: fits_def)
  then have "id_round r \<noteq> []" by (simp add: loaded_def)
  with run have "st \<noteq> RoundAdded" "st \<noteq> RoundDeleted"
    by (auto simp: handleSubmit_def Let_def split_def split: if_splits option.splits)
  with assms(5) have "st = RoundUpdated" by blast
  with run have run':
    "handleSubmit (Some uid) eid (Some (id_round r)) (Some r) inks gs [] 0 s = (RoundUpdated, s')"
    by simp
  show ?thesis
    by (rule edit_keeps_tally [OF assms(1,2) ld run'])
next
  case (DeleteRound r)
  with assms(4) have run:
    "handleDeleteRound (Some uid) eid (id_round r) (games r) True s = (st, s')"
    by (simp add: mutate_def)
  then have "st \<noteq> RoundAdded" "st \<noteq> RoundUpdated"
    by (auto simp: handleDeleteRound_def Let_def split_def split: if_splits option.splits)
  with assms(5) have "st = RoundDeleted" by blast
  with run have run':
    "handleDeleteRound (Some uid) eid (id_round r) (games r) True s = (RoundDeleted, s')"
    by simp
  from assms(3) DeleteRound have ld: "loaded s uid eid r"
    by (simp add: fits_def)
  show ?thesis
    by (rule delete_keeps_tally [OF assms(1,2) ld run'])
qed

section \<open>Where the counters leave the round counts\<close>

text \<open>
  Claim C1 does not hold of the code.  The event of \<open>db0\<close> has no round and all
  counters zero, so its counters count its rounds by outcome.  Adding the round
  \<open>[win, win]\<close> succeeds and stores one round of outcome win, but leaves
  \<open>wins = 2\<close>.
\<close>

theorem add_breaks_outcome_counts_counterexample:
  "outcome_consistent db0 ''u1'' ''e1'' \<and>
   fst (mutate ''u1'' ''e1'' (AddRound [''Amber''] games_WW ''r1'' 1) db0) = RoundAdded \<and>
   stored_games (snd (mutate ''u1'' ''e1'' (AddRound [''Amber''] games_WW ''r1'' 1) db0))
     ''u1'' ''e1'' = [games_WW] \<and>
   games_outcome games_WW = Win \<and>
   counters (snd (mutate ''u1'' ''e1'' (AddRound [''Amber''] games_WW ''r1'' 1) db0))
     ''u1'' ''e1'' = Some (2, 0, 0) \<and>
   \<not> outcome_consistent (snd (mutate ''u1'' ''e1'' (AddRound [''Amber''] games_WW ''r1'' 1) db0))
     ''u1'' ''e1''"
  by code_simp

text \<open>
  Claim C2 does not hold of the code.  The new round \<open>[win, loss, win]\<close> has outcome
  win by the majority rule; adding it to the event of \<open>db0\<close> raises \<open>wins\<close> by 2 and
  \<open>losses\<close> by 1.
\<close>

theorem add_round_counterexample:
  "games_outcome games_WLW = Win \<and>
   counters db0 ''u1'' ''e1'' = Some (0, 0, 0) \<and>
   fst (handleSubmit (Some ''u1'') ''e1'' None None [''Amber''] games_WLW ''r1'' 1 db0) =
     RoundAdded \<and>
   counters (snd (handleSubmit (Some ''u1'') ''e1'' None None [''Amber''] games_WLW ''r1'' 1 db0))
     ''u1'' ''e1'' = Some (2, 1, 0)"
  by code_simp

text \<open>
  Claim C3 does not hold of the code.  On the event of \<open>db1\<close>, with counters
  \<open>{wins: 1, losses: 0, draws: 0}\<close>, the edit of the round from \<open>[win, win]\<close> to
  \<open>[loss, loss, draw]\<close> changes the counters by -2, +2 and +1 and leaves
  \<open>{wins: -1, losses: 2, draws: 1}\<close>, not \<open>{wins: 0, losses: 1, draws: 0}\<close>.
\<close>

theorem edit_round_counterexample:
  "games_outcome games_WW = Win \<and> games_outcome games_LLD = Loss \<and>
   loaded db1 ''u1'' ''e1'' round_WW \<and>
   counters db1 ''u1'' ''e1'' = Some (1, 0, 0) \<and>
   fst (handleSubmit (Some ''u1'') ''e1'' (Some ''r1'') (Some round_WW) [''Amber''] games_LLD
          [] 0 db1) = RoundUpdated \<and>
   counters (snd (handleSubmit (Some ''u1'') ''e1'' (Some ''r1'') (Some round_WW) [''Amber'']
          games_LLD [] 0 db1)) ''u1'' ''e1'' = Some (- 1, 2, 1)"
  by code_simp

section \<open>Instances of the handler theorems\<close>

theorem mutations_keep_game_tallies_witness:
  "tally_consistent db2 ''u1'' ''e1'' \<and>
   distinct (map fst (rounds db2 ''u1'' ''e1'')) \<and>
   fits db2 ''u1'' ''e1'' (EditRound round_WW [''Amber''] games_LLD) \<and>
   mutate ''u1'' ''e1'' (EditRound round_WW [''Amber''] games_LLD) db2 =
     (RoundUpdated, snd (mutate ''u1'' ''e1'' (EditRound round_WW [''Amber''] games_LLD) db2)) \<and>
   (RoundUpdated = RoundAdded \<or> RoundUpdated = RoundUpdated \<or> RoundUpdated = RoundDeleted) \<and>
   tally_consistent (snd (mutate ''u1'' ''e1'' (EditRound round_WW [''Amber''] games_LLD) db2))
     ''u1'' ''e1'' \<and>
   distinct (map fst (rounds
     (snd (mutate ''u1'' ''e1'' (EditRound round_WW [''Amber''] games_LLD) db2)) ''u1'' ''e1''))"
proof -
  have h1: "tally_consistent db2 ''u1'' ''e1''"
    by code_simp
  have h2: "distinct (map fst (rounds db2 ''u1'' ''e1''))"
    by code_simp
  have h3: "fits db2 ''u1'' ''e1'' (EditRound round_WW [''Amber''] games_LLD)"
    by code_simp
  have "fst (mutate ''u1'' ''e1'' (EditRound round_WW [''Amber''] games_LLD) db2) = RoundUpdated"
    by code_simp
  then have h4: "mutate ''u1'' ''e1'' (EditRound round_WW [''Amber''] games_LLD) db2 =
     (RoundUpdated, snd (mutate ''u1'' ''e1'' (EditRound round_WW [''Amber''] games_LLD) db2))"
    by (metis prod.collapse)
  have h5: "RoundUpdated = RoundAdded \<or> RoundUpdated = RoundUpdated \<or> RoundUpdated = RoundDeleted"
    by simp
  from h1 h2 h3 h4 h5 mutations_keep_game_tallies [OF h1 h2 h3 h4 h5] show ?thesis
    by blast
qed

theorem handleSubmit_add_counters_witness:
  "[''Amber''] \<noteq> [] \<and> games_WLW \<noteq> [] \<and> counters db0 ''u1'' ''e1'' = Some (0, 0, 0) \<and>
   fst (handleSubmit (Some ''u1'') ''e1'' None None [''Amber''] games_WLW ''r1'' 1 db0) =
     RoundAdded \<and>
   counters (snd (handleSubmit (Some ''u1'') ''e1'' None None [''Amber''] games_WLW ''r1'' 1 db0))
     ''u1'' ''e1'' =
     Some (0 + int (count_result ''win'' games_WLW), 0 + int (count_result ''loss'' games_WLW),
           0 + int (count_result ''draw'' games_WLW))"
proof -
  have h1: "[''Amber''] \<noteq> []" by simp
  have h2: "games_WLW \<noteq> []" by (simp add: games_WLW_def)
  have h3: "counters db0 ''u1'' ''e1'' = Some (0, 0, 0)" by code_simp
  from h1 h2 h3 handleSubmit_add_counters [OF h1 h2 h3, where rd = None and nid = "''r1''"
      and now = 1]
  show ?thesis by blast
qed

theorem handleSubmit_edit_counters_witness:
  "[''Amber''] \<noteq> [] \<and> games_LLD \<noteq> [] \<and> ''r1'' \<noteq> [] \<and>
   has_doc ''r1'' (rounds db1 ''u1'' ''e1'') \<and>
   counters db1 ''u1'' ''e1'' = Some (1, 0, 0) \<and>
   fst (handleSubmit (Some ''u1'') ''e1'' (Some ''r1'') (Some round_WW) [''Amber''] games_LLD
          [] 0 db1) = RoundUpdated \<and>
   counters (snd (handleSubmit (Some ''u1'') ''e1'' (Some ''r1'') (Some round_WW) [''Amber'']
          games_LLD [] 0 db1)) ''u1'' ''e1'' =
     Some (1 + (int (count_result ''win'' games_LLD) - int (count_result ''win'' (games round_WW))),
           0 + (int (count_result ''loss'' games_LLD) - int (count_result ''loss'' (games round_WW))),
           0 + (int (count_result ''draw'' games_LLD) - int (count_result ''draw'' (games round_WW))))"
proof -
  have h1: "[''Amber''] \<noteq> []" by simp
  have h2: "games_LLD \<noteq> []" by (simp add: games_LLD_def)
  have h3: "''r1'' \<noteq> []" by simp
  have h4: "has_doc ''r1'' (rounds db1 ''u1'' ''e1'')" by code_simp
  have h5: "counters db1 ''u1'' ''e1'' = Some (1, 0, 0)" by code_simp
  from h1 h2 h3 h4 h5 handleSubmit_edit_counters [OF h1 h2 h3 h4 h5, where r = round_WW
      and nid = "[]" and now = 0]
  show ?thesis by blast
qed

theorem add_then_delete_restores_counters_witness:
  "handleSubmit (Some ''u1'') ''e1'' None None [''Amber''] games_WLW ''r1'' 1 db0 =
     (RoundAdded,
      snd (handleSubmit (Some ''u1'') ''e1'' None None [''Amber''] games_WLW ''r1'' 1 db0)) \<and>
   fst (handleDeleteRound (Some ''u1'') ''e1'' ''r1'' games_WLW True
     (snd (handleSubmit (Some ''u1'') ''e1'' None None [''Amber''] games_WLW ''r1'' 1 db0))) =
     RoundDeleted \<and>
   counters (snd (handleDeleteRound (Some ''u1'') ''e1'' ''r1'' games_WLW True
     (snd (handleSubmit (Some ''u1'') ''e1'' None None [''Amber''] games_WLW ''r1'' 1 db0))))
     ''u1'' ''e1'' = counters db0 ''u1'' ''e1'' \<and>
   events (snd (handleDeleteRound (Some ''u1'') ''e1'' ''r1'' games_WLW True
     (snd (handleSubmit (Some ''u1'') ''e1'' None None [''Amber''] games_WLW ''r1'' 1 db0)))) =
     events db0"
proof -
  have "fst (handleSubmit (Some ''u1'') ''e1'' None None [''Amber''] games_WLW ''r1'' 1 db0) =
      RoundAdded"
    by code_simp
  then have h: "handleSubmit (Some ''u1'') ''e1'' None None [''Amber''] games_WLW ''r1'' 1 db0 =
     (RoundAdded,
      snd (handleSubmit (Some ''u1'') ''e1'' None None [''Amber''] games_WLW ''r1'' 1 db0))"
    by (metis prod.collapse)
  from h add_then_delete_restores_counters [OF h] show ?thesis by blast
qed

theorem edit_writes_games_and_inks_only_witness:
  "''r1'' \<noteq> [] \<and>
   (let s' = snd (handleSubmit (Some ''u1'') ''e1'' (Some ''r1'') (Some round_WW) [''Amber'']
                games_LLD [] 0 db1) in
     map fst (rounds s' ''u1'' ''e1'') = map fst (rounds db1 ''u1'' ''e1'') \<and>
     map (\<lambda>(k, d). data_createdAt d) (rounds s' ''u1'' ''e1'') =
       map (\<lambda>(k, d). data_createdAt d) (rounds db1 ''u1'' ''e1'') \<and>
     delete_doc ''r1'' (rounds s' ''u1'' ''e1'') = delete_doc ''r1'' (rounds db1 ''u1'' ''e1'') \<and>
     (rounds s' ''u1'' ''e1'' = rounds db1 ''u1'' ''e1'' \<or>
      (Some ''u1'' = Some ''u1'' \<and> ''e1'' = ''e1'')) \<and>
     (map_of (rounds s' ''u1'' ''e1'') ''r1'' = map_of (rounds db1 ''u1'' ''e1'') ''r1'' \<or>
      map_of (rounds s' ''u1'' ''e1'') ''r1'' =
        map_option (\<lambda>d. d\<lparr>data_opponentInkColors := Some [''Amber''], data_games := Some games_LLD\<rparr>)
          (map_of (rounds db1 ''u1'' ''e1'') ''r1'')))"
proof -
  have h: "''r1'' \<noteq> []" by simp
  from h edit_writes_games_and_inks_only [OF h, of "Some ''u1''" "''e1''" "Some round_WW"
      "[''Amber'']" games_LLD "[]" 0 db1 "''u1''" "''e1''"]
  show ?thesis by blast
qed

end
